theory Spec2Isabelle
  imports Main
begin

text \<open>
  The store of the application (\<open>createStore\<close>: one \<open>dispatch\<close> function over a
  mutable store, and an \<open>update\<close> function that schedules renders) and the server's
  route handler that renders a page with it. The functions are embedded as state
  transformers; what they call outside the store is a parameter or an event in a trace.
\<close>

section \<open>JavaScript values\<close>

text \<open>
  Payloads of \<open>dispatch\<close> and the values kept in the store are untyped JavaScript values.
  Numbers are modelled as integers; \<open>JObj\<close> is an object literal as an association list
  in which the first entry for a key is the one that is read; \<open>JFun\<close> is a built-in
  function, by its name.
\<close>

datatype jv =
    JUndefined
  | JNull
  | JBool bool
  | JNum int
  | JStr string
  | JArr "jv list"
  | JObj "(string \<times> jv) list"
  | JFun string

text \<open>The condition of \<open>if (v)\<close> and \<open>v ? a : b\<close>.\<close>

fun truthy :: "jv \<Rightarrow> bool" where
  "truthy JUndefined = False"
| "truthy JNull = False"
| "truthy (JBool b) = b"
| "truthy (JNum n) = (n \<noteq> 0)"
| "truthy (JStr s) = (s \<noteq> [])"
| "truthy (JArr xs) = True"
| "truthy (JObj fs) = True"
| "truthy (JFun f) = True"

text \<open>\<open>v == null\<close> holds for \<open>null\<close> and \<open>undefined\<close> only.\<close>

fun eq_null :: "jv \<Rightarrow> bool" where
  "eq_null JUndefined = True"
| "eq_null JNull = True"
| "eq_null v = False"

text \<open>
  \<open>a === b\<close>. Primitives are compared by value, and a built-in function is the one of
  its name. Arrays and objects are compared by reference in JavaScript; a payload handed
  to \<open>dispatch\<close> is taken to be a reference of its own, so an array or an object is
  strictly equal to nothing in the store.
\<close>

fun strict_eq :: "jv \<Rightarrow> jv \<Rightarrow> bool" where
  "strict_eq (JArr xs) b = False"
| "strict_eq (JObj fs) b = False"
| "strict_eq a b = (a = b)"

text \<open>
  \<open>v.k\<close> and the destructuring \<open>const { k } = v\<close>: a TypeError (\<open>None\<close>) on \<open>undefined\<close>
  and \<open>null\<close>, the field of an object, and \<open>undefined\<close> where the property is missing.
  Of the property names that the store reads, \<open>search\<close> is a method of every string
  (\<open>String.prototype.search\<close>) and \<open>name\<close> is a property of every function; none is a
  property of a number, a boolean or an array.
\<close>

fun get_prop :: "string \<Rightarrow> jv \<Rightarrow> jv option" where
  "get_prop k JUndefined = None"
| "get_prop k JNull = None"
| "get_prop k (JObj fs) = Some (case map_of fs k of None \<Rightarrow> JUndefined | Some v \<Rightarrow> v)"
| "get_prop k (JStr s) = Some (if k = ''search'' then JFun ''search'' else JUndefined)"
| "get_prop k (JFun f) = Some (if k = ''name'' then JStr f else JUndefined)"
| "get_prop k v = Some JUndefined"

text \<open>\<open>obj[k] = v\<close> on a plain object: overwrite in place, or add the key at the end.\<close>

fun obj_set :: "string \<Rightarrow> jv \<Rightarrow> (string \<times> jv) list \<Rightarrow> (string \<times> jv) list" where
  "obj_set k v [] = [(k, v)]"
| "obj_set k v ((k', v') # fs) = (if k' = k then (k, v) # fs else (k', v') # obj_set k v fs)"

section \<open>The store, its private flags and the world around it\<close>

record app =
  title :: jv
  width :: jv
  height :: jv
  fetchCount :: int

record error_entry =
  message :: jv
  code :: jv

record store =
  location :: jv
  app :: app
  fatalError :: jv
  errors :: "error_entry list"
  userName :: jv
  snippets :: "(string \<times> jv) list"
  searches :: "(string \<times> jv) list"
  topSnippetIds :: jv
  doc :: jv
  lastSearch :: jv

text \<open>The browser's \<open>window\<close>: the one localStorage slot the store uses, and \<open>location.href\<close>.\<close>

record window =
  pendingDispatch :: "string option"
  href :: string

text \<open>What \<open>process.nextTick\<close> has queued; the server only ever queues its \<open>done\<close>.\<close>

datatype tick = Done

text \<open>
  Calls that leave the store, in the order they happen. \<open>RenderBegin\<close> and \<open>RenderEnd\<close>
  bracket one call of the render function; \<open>Deferred\<close> marks an \<open>update()\<close> that found a
  render in progress and only set \<open>isUpdatePending\<close>.
\<close>

datatype event =
    RenderBegin
  | RenderEnd
  | Deferred
  | LocPush jv
  | LocReplace jv
  | LocBack
  | Ga jv
  | ApiCall string jv
  | ClipboardCopy jv
  | ConsoleError jv
  | OnFetchDone
  | ResStatus nat
  | ResRender jv

record state =
  store :: store
  isRendering :: bool
  isUpdatePending :: bool
  window :: "window option"
  nextTickQueue :: "tick list"
  trace :: "event list"

datatype js_error = TypeError | ReferenceError | Unrecognized jv

text \<open>
  A call returns, or throws with the mutations made so far in place. \<open>None\<close> is a call
  that has not come back within the recursion depth it was given.
\<close>

datatype outcome = Return state | Throw js_error state

type_synonym result = "outcome option"

fun state_of :: "outcome \<Rightarrow> state" where
  "state_of (Return s) = s"
| "state_of (Throw e s) = s"

definition and_then :: "result \<Rightarrow> (state \<Rightarrow> result) \<Rightarrow> result" where
  "and_then r f = (case r of Some (Return s) \<Rightarrow> f s | _ \<Rightarrow> r)"

text \<open>
  The collaborators of \<open>createStore\<close>, none of which is part of the store:
  \<^item> \<open>render\<close>: the render function handed to \<open>createStore\<close>, as the dispatches it issues,
    in order, while it runs on a given store;
  \<^item> \<open>onFetchDone\<close>: the optional second argument of \<open>createStore\<close>, as what it hands to
    \<open>process.nextTick\<close> on a given store; each call of it is an \<open>OnFetchDone\<close> event;
  \<^item> \<open>loc_push\<close>, \<open>loc_replace\<close>, \<open>loc_back\<close>: the locations that the \<open>Location\<close> object
    reports through its callback before the call returns;
  \<^item> \<open>config_isBrowser\<close>, \<open>config_name\<close>: the two fields of \<open>config\<close> that are read;
  \<^item> \<open>to_string\<close>: JavaScript's string conversion of a value that is not a string;
  \<^item> \<open>json_stringify\<close>, \<open>json_parse\<close>: \<open>JSON.stringify\<close> and \<open>JSON.parse\<close>, the latter
    \<open>None\<close> where it throws a SyntaxError;
  \<^item> \<open>querystring_encode\<close>: \<open>querystring.encode\<close>.
  The calls of \<open>api\<close> complete asynchronously: a call is an \<open>ApiCall\<close> event, and its
  completion is a later \<open>dispatch\<close> of the matching \<open>_DONE\<close> type.
\<close>

record env =
  render :: "store \<Rightarrow> (jv \<times> jv) list"
  onFetchDone :: "(store \<Rightarrow> tick list) option"
  loc_push :: "jv \<Rightarrow> jv list"
  loc_replace :: "jv \<Rightarrow> jv list"
  loc_back :: "jv list"
  config_isBrowser :: bool
  config_name :: string
  to_string :: "jv \<Rightarrow> string"
  json_stringify :: "jv \<Rightarrow> string"
  json_parse :: "string \<Rightarrow> jv option"
  querystring_encode :: "jv \<Rightarrow> string"

section \<open>createStore\<close>

text \<open>The store object that \<open>createStore\<close> builds, and the closure around it.\<close>

definition initial_store :: store where
  "initial_store =
     \<lparr> location = JObj [(''name'', JNull), (''params'', JObj []), (''url'', JNull),
                        (''query'', JObj []), (''pathname'', JNull)],
       app = \<lparr> title = JNull, width = JNum 0, height = JNum 0, fetchCount = 0 \<rparr>,
       fatalError = JNull,
       errors = [],
       userName = JNull,
       snippets = [],
       searches = [],
       topSnippetIds = JNull,
       doc = JNull,
       lastSearch = JUndefined \<rparr>"

definition createStore :: "window option \<Rightarrow> state" where
  "createStore w =
     \<lparr> store = initial_store, isRendering = False, isUpdatePending = False,
       window = w, nextTickQueue = [], trace = [] \<rparr>"

definition emit :: "event \<Rightarrow> state \<Rightarrow> state" where
  "emit e s = s\<lparr>trace := trace s @ [e]\<rparr>"

text \<open>\<open>new Error(msg)\<close>: the message, and the first line of the stack (the frames are left out).\<close>

definition new_Error :: "string \<Rightarrow> jv" where
  "new_Error msg = JObj [(''message'', JStr msg), (''stack'', JStr (''Error: '' @ msg))]"

text \<open>The string a value becomes as an operand of \<open>+\<close> with a string, or as a property key.\<close>

definition str_of :: "env \<Rightarrow> jv \<Rightarrow> string" where
  "str_of env v = (case v of JStr a \<Rightarrow> a | _ \<Rightarrow> to_string env v)"

subsection \<open>The helpers of the closure\<close>

definition addPendingDispatch :: "env \<Rightarrow> jv \<Rightarrow> jv \<Rightarrow> state \<Rightarrow> result" where
  "addPendingDispatch env type data s =
     (case window s of
        None \<Rightarrow> Some (Throw ReferenceError s)
      | Some w \<Rightarrow>
          Some (Return (s\<lparr>window := Some (w\<lparr>pendingDispatch :=
            Some (json_stringify env (JObj [(''type'', type), (''data'', data)]))\<rparr>)\<rparr>)))"

definition fetchStart :: "state \<Rightarrow> state" where
  "fetchStart s =
     s\<lparr>store := (store s)\<lparr>app := (app (store s))\<lparr>fetchCount :=
       fetchCount (app (store s)) + 1\<rparr>\<rparr>\<rparr>"

definition fetchDone :: "env \<Rightarrow> state \<Rightarrow> state" where
  "fetchDone env s =
     (let s1 = s\<lparr>store := (store s)\<lparr>app := (app (store s))\<lparr>fetchCount :=
                 fetchCount (app (store s)) - 1\<rparr>\<rparr>\<rparr>
      in case onFetchDone env of
           None \<Rightarrow> s1
         | Some cb \<Rightarrow>
             (emit OnFetchDone s1)\<lparr>nextTickQueue := nextTickQueue s1 @ cb (store s1)\<rparr>)"

text \<open>\<open>upd\<close> stands for the closure's \<open>update\<close>, which is defined after \<open>dispatch\<close>.\<close>

definition addError :: "(state \<Rightarrow> result) \<Rightarrow> jv \<Rightarrow> state \<Rightarrow> result" where
  "addError upd err s =
     (case (get_prop ''message'' err, get_prop ''code'' err, get_prop ''stack'' err) of
        (Some m, Some c, Some stack) \<Rightarrow>
          upd (emit (ConsoleError stack)
            (s\<lparr>store := (store s)\<lparr>errors := errors (store s) @
               [\<lparr> message = m, code = (if c = JUndefined then JNull else c) \<rparr>]\<rparr>\<rparr>))
      | _ \<Rightarrow> Some (Throw TypeError s))"

definition addSnippet :: "env \<Rightarrow> jv \<Rightarrow> state \<Rightarrow> result" where
  "addSnippet env snippet s =
     (case get_prop ''id'' snippet of
        None \<Rightarrow> Some (Throw TypeError s)
      | Some i \<Rightarrow>
          Some (Return (s\<lparr>store := (store s)\<lparr>snippets :=
            obj_set (str_of env i) snippet (snippets (store s))\<rparr>\<rparr>)))"

definition addSearch :: "env \<Rightarrow> jv \<Rightarrow> state \<Rightarrow> result" where
  "addSearch env search s =
     (case get_prop ''q'' search of
        None \<Rightarrow> Some (Throw TypeError s)
      | Some q \<Rightarrow>
          Some (Return (s\<lparr>store := (store s)\<lparr>searches :=
            obj_set (str_of env q) search (searches (store s))\<rparr>\<rparr>)))"

text \<open>\<open>snippets.map(addSnippet)\<close> on the elements of an array, in order.\<close>

fun addSnippets :: "env \<Rightarrow> jv list \<Rightarrow> state \<Rightarrow> result" where
  "addSnippets env [] s = Some (Return s)"
| "addSnippets env (x # xs) s = and_then (addSnippet env x s) (addSnippets env xs)"

text \<open>
  \<open>snippets.map(snippet => snippet.id)\<close>; it runs after \<open>snippets.map(addSnippet)\<close> has
  read the \<open>id\<close> of every element, so no element is \<open>null\<close> or \<open>undefined\<close> here.
\<close>

definition snippet_ids :: "jv list \<Rightarrow> jv" where
  "snippet_ids xs = JArr (map (\<lambda>x. case get_prop ''id'' x of Some i \<Rightarrow> i | None \<Rightarrow> JUndefined) xs)"

text \<open>A list of dispatches issued one after the other; the first throw ends the list.\<close>

fun dispatch_all :: "(jv \<Rightarrow> jv \<Rightarrow> state \<Rightarrow> result) \<Rightarrow> (jv \<times> jv) list \<Rightarrow> state \<Rightarrow> result" where
  "dispatch_all disp [] s = Some (Return s)"
| "dispatch_all disp (a # as) s = and_then (disp (fst a) (snd a) s) (dispatch_all disp as)"

text \<open>The callback given to \<open>new Location\<close>, run on each location that is reported.\<close>

definition loc_notify :: "(jv \<Rightarrow> jv \<Rightarrow> state \<Rightarrow> result) \<Rightarrow> jv list \<Rightarrow> state \<Rightarrow> result" where
  "loc_notify disp locs s =
     dispatch_all disp (map (\<lambda>l. (JStr ''LOCATION_CHANGED'', l)) locs) s"

text \<open>The en dash of the title, in UTF-8, between two spaces.\<close>

definition title_separator :: string where
  "title_separator = [CHR '' '', CHR 0xE2, CHR 0x80, CHR 0x93, CHR '' '']"

subsection \<open>The cases of dispatch\<close>

text \<open>
  Each definition is one \<open>case\<close> block of the \<open>switch\<close> in \<open>dispatch\<close>. \<open>disp\<close> stands for
  \<open>dispatch\<close> itself and \<open>upd\<close> for \<open>update\<close>, where the block calls them. The two \<open>debug\<close>
  calls at the head of \<open>dispatch\<close> only log and are left out.
\<close>

definition case_LOCATION_PUSH ::
  "env \<Rightarrow> (jv \<Rightarrow> jv \<Rightarrow> state \<Rightarrow> result) \<Rightarrow> jv \<Rightarrow> state \<Rightarrow> result" where
  "case_LOCATION_PUSH env disp data s =
     (case get_prop ''url'' (location (store s)) of
        None \<Rightarrow> Some (Throw TypeError s)
      | Some u \<Rightarrow>
          if \<not> strict_eq data u
          then loc_notify disp (loc_push env data) (emit (LocPush data) s)
          else Some (Return s))"

definition case_LOCATION_REPLACE ::
  "env \<Rightarrow> (jv \<Rightarrow> jv \<Rightarrow> state \<Rightarrow> result) \<Rightarrow> jv \<Rightarrow> state \<Rightarrow> result" where
  "case_LOCATION_REPLACE env disp data s =
     (case get_prop ''url'' (location (store s)) of
        None \<Rightarrow> Some (Throw TypeError s)
      | Some u \<Rightarrow>
          if \<not> strict_eq data u
          then loc_notify disp (loc_replace env data) (emit (LocReplace data) s)
          else Some (Return s))"

definition case_LOCATION_BACK ::
  "env \<Rightarrow> (jv \<Rightarrow> jv \<Rightarrow> state \<Rightarrow> result) \<Rightarrow> state \<Rightarrow> result" where
  "case_LOCATION_BACK env disp s = loc_notify disp (loc_back env) (emit LocBack s)"

definition case_LOCATION_CHANGED ::
  "env \<Rightarrow> (state \<Rightarrow> result) \<Rightarrow> jv \<Rightarrow> state \<Rightarrow> result" where
  "case_LOCATION_CHANGED env upd data s =
     (let s1 = s\<lparr>store := (store s)\<lparr>location := data, fatalError := JNull\<rparr>\<rparr>
      in if config_isBrowser env
         then (case window s1 of
                 None \<Rightarrow> Some (Throw ReferenceError s1)
               | Some w \<Rightarrow>
                   (case get_prop ''url'' (location (store s1)) of
                      None \<Rightarrow> Some (Throw TypeError s1)
                    | Some u \<Rightarrow> upd (emit (Ga u) s1)))
         else upd s1)"

definition case_APP_TITLE :: "env \<Rightarrow> (state \<Rightarrow> result) \<Rightarrow> jv \<Rightarrow> state \<Rightarrow> result" where
  "case_APP_TITLE env upd data s =
     (let t = (if truthy data then str_of env data @ title_separator @ config_name env
               else config_name env)
      in upd (s\<lparr>store := (store s)\<lparr>app := (app (store s))\<lparr>title := JStr t\<rparr>\<rparr>\<rparr>))"

definition case_APP_RESIZE :: "(state \<Rightarrow> result) \<Rightarrow> jv \<Rightarrow> state \<Rightarrow> result" where
  "case_APP_RESIZE upd data s =
     (case get_prop ''width'' data of
        None \<Rightarrow> Some (Throw TypeError s)
      | Some w \<Rightarrow>
          (let s1 = s\<lparr>store := (store s)\<lparr>app := (app (store s))\<lparr>width := w\<rparr>\<rparr>\<rparr>
           in case get_prop ''height'' data of
                None \<Rightarrow> Some (Throw TypeError s1)
              | Some h \<Rightarrow>
                  upd (s1\<lparr>store := (store s1)\<lparr>app := (app (store s1))\<lparr>height := h\<rparr>\<rparr>\<rparr>)))"

text \<open>
  The five start actions that differ only in the operation of \<open>api\<close> they call:
  \<open>fetchStart()\<close>, the call, \<open>return update()\<close>.
\<close>

definition case_API_start :: "string \<Rightarrow> (state \<Rightarrow> result) \<Rightarrow> jv \<Rightarrow> state \<Rightarrow> result" where
  "case_API_start op upd data s = upd (emit (ApiCall op data) (fetchStart s))"

definition case_API_DOC_DONE :: "env \<Rightarrow> (state \<Rightarrow> result) \<Rightarrow> jv \<Rightarrow> state \<Rightarrow> result" where
  "case_API_DOC_DONE env upd data s =
     (let s1 = fetchDone env s
      in case (get_prop ''err'' data, get_prop ''doc'' data) of
           (Some err, Some d) \<Rightarrow>
             if truthy err then addError upd err s1
             else upd (s1\<lparr>store := (store s1)\<lparr>doc := d\<rparr>\<rparr>)
         | _ \<Rightarrow> Some (Throw TypeError s1))"

definition case_API_SNIPPET_ADD ::
  "env \<Rightarrow> (state \<Rightarrow> result) \<Rightarrow> jv \<Rightarrow> jv \<Rightarrow> state \<Rightarrow> result" where
  "case_API_SNIPPET_ADD env upd type data s =
     (let s1 = fetchStart s
      in if eq_null (userName (store s1))
         then and_then (addPendingDispatch env type data s1) (\<lambda>s2.
              and_then (addError upd
                 (new_Error ''Last step! Log in to get credit for your contribution.'') s2) (\<lambda>s3.
              case window s3 of
                None \<Rightarrow> Some (Throw ReferenceError s3)
              | Some w \<Rightarrow> Some (Return (s3\<lparr>window := Some (w\<lparr>href := ''/auth/twitter''\<rparr>)\<rparr>))))
         else upd (emit (ApiCall ''snippet.add'' data) s1))"

definition case_API_SNIPPET_ADD_DONE ::
  "env \<Rightarrow> (jv \<Rightarrow> jv \<Rightarrow> state \<Rightarrow> result) \<Rightarrow> (state \<Rightarrow> result) \<Rightarrow> jv \<Rightarrow> state \<Rightarrow> result" where
  "case_API_SNIPPET_ADD_DONE env disp upd data s =
     (let s1 = fetchDone env s
      in case get_prop ''err'' data of
           Some err \<Rightarrow>
             if truthy err then addError upd err s1
             else and_then (disp (JStr ''LOCATION_PUSH'') (JStr ''/'') s1) upd
         | None \<Rightarrow> Some (Throw TypeError s1))"

text \<open>\<open>API_SNIPPET_VOTE_DONE\<close> and \<open>API_SNIPPET_GET_DONE\<close> have the same block.\<close>

definition case_API_SNIPPET_one_DONE ::
  "env \<Rightarrow> (state \<Rightarrow> result) \<Rightarrow> jv \<Rightarrow> state \<Rightarrow> result" where
  "case_API_SNIPPET_one_DONE env upd data s =
     (let s1 = fetchDone env s
      in case (get_prop ''err'' data, get_prop ''snippet'' data) of
           (Some err, Some snippet) \<Rightarrow>
             if truthy err then addError upd err s1
             else and_then (addSnippet env snippet s1) upd
         | _ \<Rightarrow> Some (Throw TypeError s1))"

definition case_API_SNIPPET_ALL_DONE ::
  "env \<Rightarrow> (state \<Rightarrow> result) \<Rightarrow> jv \<Rightarrow> state \<Rightarrow> result" where
  "case_API_SNIPPET_ALL_DONE env upd data s =
     (let s1 = fetchDone env s
      in case (get_prop ''err'' data, get_prop ''snippets'' data) of
           (Some err, Some snips) \<Rightarrow>
             if truthy err then addError upd err s1
             else (case snips of
                     JArr xs \<Rightarrow>
                       and_then (addSnippets env xs s1) (\<lambda>s2.
                         upd (s2\<lparr>store := (store s2)\<lparr>topSnippetIds := snippet_ids xs\<rparr>\<rparr>))
                   | _ \<Rightarrow> Some (Throw TypeError s1))
         | _ \<Rightarrow> Some (Throw TypeError s1))"

definition case_API_SNIPPET_SEARCH_DONE ::
  "env \<Rightarrow> (state \<Rightarrow> result) \<Rightarrow> jv \<Rightarrow> state \<Rightarrow> result" where
  "case_API_SNIPPET_SEARCH_DONE env upd data s =
     (let s1 = fetchDone env s
      in case (get_prop ''err'' data, get_prop ''search'' data) of
           (Some err, Some search) \<Rightarrow>
             if truthy err then addError upd err s1
             else and_then (addSearch env search s1) upd
         | _ \<Rightarrow> Some (Throw TypeError s1))"

definition case_SEARCH_INPUT ::
  "env \<Rightarrow> (jv \<Rightarrow> jv \<Rightarrow> state \<Rightarrow> result) \<Rightarrow> jv \<Rightarrow> state \<Rightarrow> result" where
  "case_SEARCH_INPUT env disp data s =
     (let s1 = s\<lparr>store := (store s)\<lparr>lastSearch := data\<rparr>\<rparr>
      in if strict_eq data (JStr [])
         then disp (JStr ''LOCATION_BACK'') JUndefined s1
         else (let url = ''/search?'' @ querystring_encode env (JObj [(''q'', data)])
               in case get_prop ''name'' (location (store s1)) of
                    None \<Rightarrow> Some (Throw TypeError s1)
                  | Some n \<Rightarrow>
                      disp (if strict_eq n (JStr ''search'') then JStr ''LOCATION_REPLACE''
                            else JStr ''LOCATION_PUSH'') (JStr url) s1))"

definition case_CLIPBOARD_COPY :: "jv \<Rightarrow> state \<Rightarrow> result" where
  "case_CLIPBOARD_COPY data s = Some (Return (emit (ClipboardCopy data) s))"

definition case_RUN_PENDING_DISPATCH ::
  "env \<Rightarrow> (jv \<Rightarrow> jv \<Rightarrow> state \<Rightarrow> result) \<Rightarrow> (state \<Rightarrow> result) \<Rightarrow> state \<Rightarrow> result" where
  "case_RUN_PENDING_DISPATCH env disp upd s =
     (case window s of
        None \<Rightarrow> Some (Throw ReferenceError s)
      | Some w \<Rightarrow>
          (case pendingDispatch w of
             None \<Rightarrow> Some (Return s)
           | Some raw \<Rightarrow>
               (let event = (case json_parse env raw of Some v \<Rightarrow> v | None \<Rightarrow> JUndefined);
                    s1 = s\<lparr>window := Some (w\<lparr>pendingDispatch := None\<rparr>)\<rparr>
                in case (get_prop ''type'' event, get_prop ''data'' event) of
                     (Some t, Some d) \<Rightarrow> and_then (disp t d s1) upd
                   | _ \<Rightarrow> Some (Throw TypeError s1))))"

subsection \<open>dispatch and update\<close>

text \<open>
  The \<open>switch\<close> of \<open>dispatch\<close>, in the order of the source; the last branch is its
  \<open>default\<close>.
\<close>

definition dispatch_body ::
  "env \<Rightarrow> (jv \<Rightarrow> jv \<Rightarrow> state \<Rightarrow> result) \<Rightarrow> (state \<Rightarrow> result) \<Rightarrow> jv \<Rightarrow> jv \<Rightarrow> state \<Rightarrow> result" where
  "dispatch_body env disp upd type data s =
     (if type = JStr ''LOCATION_PUSH'' then case_LOCATION_PUSH env disp data s
      else if type = JStr ''LOCATION_REPLACE'' then case_LOCATION_REPLACE env disp data s
      else if type = JStr ''LOCATION_BACK'' then case_LOCATION_BACK env disp s
      else if type = JStr ''LOCATION_CHANGED'' then case_LOCATION_CHANGED env upd data s
      else if type = JStr ''APP_TITLE'' then case_APP_TITLE env upd data s
      else if type = JStr ''APP_RESIZE'' then case_APP_RESIZE upd data s
      else if type = JStr ''API_DOC'' then case_API_start ''doc.get'' upd data s
      else if type = JStr ''API_DOC_DONE'' then case_API_DOC_DONE env upd data s
      else if type = JStr ''API_SNIPPET_ADD'' then case_API_SNIPPET_ADD env upd type data s
      else if type = JStr ''API_SNIPPET_ADD_DONE''
        then case_API_SNIPPET_ADD_DONE env disp upd data s
      else if type = JStr ''API_SNIPPET_VOTE'' then case_API_start ''snippet.vote'' upd data s
      else if type = JStr ''API_SNIPPET_VOTE_DONE''
        then case_API_SNIPPET_one_DONE env upd data s
      else if type = JStr ''API_SNIPPET_GET'' then case_API_start ''snippet.get'' upd data s
      else if type = JStr ''API_SNIPPET_GET_DONE''
        then case_API_SNIPPET_one_DONE env upd data s
      else if type = JStr ''API_SNIPPET_ALL'' then case_API_start ''snippet.all'' upd data s
      else if type = JStr ''API_SNIPPET_ALL_DONE''
        then case_API_SNIPPET_ALL_DONE env upd data s
      else if type = JStr ''API_SNIPPET_SEARCH''
        then case_API_start ''snippet.search'' upd data s
      else if type = JStr ''API_SNIPPET_SEARCH_DONE''
        then case_API_SNIPPET_SEARCH_DONE env upd data s
      else if type = JStr ''SEARCH_INPUT'' then case_SEARCH_INPUT env disp data s
      else if type = JStr ''CLIPBOARD_COPY'' then case_CLIPBOARD_COPY data s
      else if type = JStr ''RUN_PENDING_DISPATCH''
        then case_RUN_PENDING_DISPATCH env disp upd s
      else Some (Throw (Unrecognized type) s))"

text \<open>One call of the render function: the dispatches it issues run inside the call.\<close>

definition run_render :: "env \<Rightarrow> (jv \<Rightarrow> jv \<Rightarrow> state \<Rightarrow> result) \<Rightarrow> state \<Rightarrow> result" where
  "run_render env disp s =
     and_then (dispatch_all disp (render env (store s)) (emit RenderBegin s))
       (\<lambda>s'. Some (Return (emit RenderEnd s')))"

definition update_body ::
  "env \<Rightarrow> (jv \<Rightarrow> jv \<Rightarrow> state \<Rightarrow> result) \<Rightarrow> (state \<Rightarrow> result) \<Rightarrow> state \<Rightarrow> result" where
  "update_body env disp upd s =
     (if isRendering s
      then Some (Return (emit Deferred (s\<lparr>isUpdatePending := True\<rparr>)))
      else and_then (run_render env disp (s\<lparr>isRendering := True\<rparr>)) (\<lambda>s1.
             (let s2 = s1\<lparr>isRendering := False\<rparr>
              in if isUpdatePending s2
                 then upd (s2\<lparr>isUpdatePending := False\<rparr>)
                 else Some (Return s2))))"

text \<open>
  \<open>dispatch\<close> and \<open>update\<close> call each other, and \<open>update\<close> calls itself for as long as a
  render asks for another one. Both are given the depth of calls they may nest; a call
  that needs more is \<open>None\<close>.
\<close>

primrec closure ::
  "nat \<Rightarrow> env \<Rightarrow> (jv \<Rightarrow> jv \<Rightarrow> state \<Rightarrow> result) \<times> (state \<Rightarrow> result)" where
  "closure 0 env = ((\<lambda>type data s. None), (\<lambda>s. None))"
| "closure (Suc n) env =
     (dispatch_body env (fst (closure n env)) (snd (closure n env)),
      update_body env (fst (closure n env)) (snd (closure n env)))"

definition dispatch :: "nat \<Rightarrow> env \<Rightarrow> jv \<Rightarrow> jv \<Rightarrow> state \<Rightarrow> result" where
  "dispatch n env = fst (closure n env)"

definition update :: "nat \<Rightarrow> env \<Rightarrow> state \<Rightarrow> result" where
  "update n env = snd (closure n env)"

section \<open>The server's route handler\<close>

text \<open>
  \<open>router.get('*', ...)\<close>. Its \<open>update\<close> is the \<open>render\<close> of the environment; its
  \<open>onFetchEnd\<close> is the observer it hands to \<open>createStore\<close>. The markup that
  \<open>renderer.html()\<close> returns is the renderer's own and is not part of \<open>ResRender\<close>.
\<close>

definition onFetchEnd :: "store \<Rightarrow> tick list" where
  "onFetchEnd st = (if fetchCount (app st) = 0 then [Done] else [])"

definition done_fn :: "state \<Rightarrow> result" where
  "done_fn s =
     (case get_prop ''name'' (location (store s)) of
        None \<Rightarrow> Some (Throw TypeError s)
      | Some n \<Rightarrow>
          (let status = (if strict_eq n (JStr ''not-found'') then 404 else 200)
           in Some (Return (emit (ResRender (title (app (store s))))
                (emit (ResStatus status) s)))))"

definition server_env :: "env \<Rightarrow> env" where
  "server_env env = env\<lparr>onFetchDone := Some onFetchEnd\<rparr>"

definition router_get :: "nat \<Rightarrow> env \<Rightarrow> string \<Rightarrow> result" where
  "router_get n env url =
     and_then (dispatch n (server_env env) (JStr ''LOCATION_REPLACE'') (JStr url)
                 (createStore None))
       (\<lambda>s. if fetchCount (app (store s)) = 0 then done_fn s else Some (Return s))"

text \<open>The next tick: the callback at the head of the queue runs.\<close>

fun run_tick :: "state \<Rightarrow> result" where
  "run_tick s =
     (case nextTickQueue s of
        [] \<Rightarrow> Some (Return s)
      | Done # q \<Rightarrow> done_fn (s\<lparr>nextTickQueue := q\<rparr>))"

section \<open>Reading the trace\<close>

text \<open>
  The number of render calls that have begun and not ended, counted along the trace from
  \<open>d\<close>; \<open>None\<close> as soon as a render begins inside another or ends without having begun.
\<close>

fun in_flight :: "nat \<Rightarrow> event list \<Rightarrow> nat option" where
  "in_flight d [] = Some d"
| "in_flight d (RenderBegin # es) = (if d = 0 then in_flight 1 es else None)"
| "in_flight d (RenderEnd # es) = (if d = 1 then in_flight 0 es else None)"
| "in_flight d (e # es) = in_flight d es"

text \<open>Whether an \<open>update()\<close> was deferred and no render has begun since.\<close>

fun unserved :: "bool \<Rightarrow> event list \<Rightarrow> bool" where
  "unserved p [] = p"
| "unserved p (Deferred # es) = unserved True es"
| "unserved p (RenderBegin # es) = unserved False es"
| "unserved p (e # es) = unserved p es"

text \<open>How many times the render function has been called.\<close>

definition count_renders :: "event list \<Rightarrow> nat" where
  "count_renders tr = length (filter (\<lambda>e. e = RenderBegin) tr)"

text \<open>How many calls of \<open>update()\<close> found a render in progress.\<close>

definition count_deferred :: "event list \<Rightarrow> nat" where
  "count_deferred tr = length (filter (\<lambda>e. e = Deferred) tr)"

definition count_api :: "event list \<Rightarrow> nat" where
  "count_api tr = length (filter (\<lambda>e. case e of ApiCall op d \<Rightarrow> True | _ \<Rightarrow> False) tr)"

text \<open>
  The scheduler's flags agree with the trace: at most one render is in flight, and it is
  exactly when \<open>isRendering\<close> is set; \<open>isUpdatePending\<close> is set exactly when a deferred
  \<open>update()\<close> has not been followed by a render; and outside a render nothing is pending.
\<close>

definition sched_inv :: "state \<Rightarrow> bool" where
  "sched_inv s =
     (in_flight 0 (trace s) = Some (if isRendering s then 1 else 0) \<and>
      unserved False (trace s) = isUpdatePending s \<and>
      (isRendering s \<or> \<not> isUpdatePending s))"

fun is_Return :: "outcome \<Rightarrow> bool" where
  "is_Return (Return s) = True"
| "is_Return (Throw e s) = False"

text \<open>The types that \<open>dispatch\<close> has a \<open>case\<close> for.\<close>

definition dispatch_types :: "string list" where
  "dispatch_types =
     [''LOCATION_PUSH'', ''LOCATION_REPLACE'', ''LOCATION_BACK'', ''LOCATION_CHANGED'',
      ''APP_TITLE'', ''APP_RESIZE'', ''API_DOC'', ''API_DOC_DONE'', ''API_SNIPPET_ADD'',
      ''API_SNIPPET_ADD_DONE'', ''API_SNIPPET_VOTE'', ''API_SNIPPET_VOTE_DONE'',
      ''API_SNIPPET_GET'', ''API_SNIPPET_GET_DONE'', ''API_SNIPPET_ALL'',
      ''API_SNIPPET_ALL_DONE'', ''API_SNIPPET_SEARCH'', ''API_SNIPPET_SEARCH_DONE'',
      ''SEARCH_INPUT'', ''CLIPBOARD_COPY'', ''RUN_PENDING_DISPATCH'']"

text \<open>The types whose block ends in \<open>return update()\<close> whatever the payload and the store are.\<close>

definition requesting_types :: "string list" where
  "requesting_types =
     [''APP_TITLE'', ''API_DOC'', ''API_SNIPPET_VOTE'', ''API_SNIPPET_GET'',
      ''API_SNIPPET_ALL'', ''API_SNIPPET_SEARCH'']"

text \<open>The types that an \<open>api\<close> callback dispatches when its call has completed.\<close>

definition done_types :: "string list" where
  "done_types =
     [''API_DOC_DONE'', ''API_SNIPPET_ADD_DONE'', ''API_SNIPPET_VOTE_DONE'',
      ''API_SNIPPET_GET_DONE'', ''API_SNIPPET_ALL_DONE'', ''API_SNIPPET_SEARCH_DONE'']"

subsection \<open>What a call does to the scheduler\<close>

text \<open>Events that are neither a render nor a deferred \<open>update()\<close>.\<close>

definition neutral :: "event \<Rightarrow> bool" where
  "neutral e = (e \<noteq> RenderBegin \<and> e \<noteq> RenderEnd \<and> e \<noteq> Deferred)"

text \<open>The part of a state that the scheduler's invariant reads.\<close>

definition sched :: "state \<Rightarrow> bool \<times> bool \<times> nat option \<times> bool \<times> nat \<times> nat" where
  "sched s =
     (isRendering s, isUpdatePending s, in_flight 0 (trace s), unserved False (trace s),
      count_renders (trace s), count_deferred (trace s))"

text \<open>
  What a call that started in \<open>s\<close> and ended in \<open>out\<close> has kept: the invariant; a call made
  inside a render ends inside it, has not called the render function, and leaves
  \<open>isUpdatePending\<close> set exactly when it was set before or the call has deferred an
  \<open>update()\<close>; a call that returns leaves \<open>isRendering\<close> as it found it.
\<close>

definition sched_rel :: "state \<Rightarrow> outcome \<Rightarrow> bool" where
  "sched_rel s out =
     (sched_inv (state_of out) \<and>
      (isRendering s \<longrightarrow>
         isRendering (state_of out) \<and>
         count_renders (trace (state_of out)) = count_renders (trace s) \<and>
         count_deferred (trace s) \<le> count_deferred (trace (state_of out)) \<and>
         isUpdatePending (state_of out) =
           (isUpdatePending s \<or>
            count_deferred (trace s) < count_deferred (trace (state_of out)))) \<and>
      (is_Return out \<longrightarrow> isRendering (state_of out) = isRendering s))"

definition sched_ok :: "state \<Rightarrow> result \<Rightarrow> bool" where
  "sched_ok s r = (\<forall>out. r = Some out \<longrightarrow> sched_inv s \<longrightarrow> sched_rel s out)"

text \<open>
  What \<open>update\<close> needs on entry. When it calls itself it has just cleared
  \<open>isUpdatePending\<close>, and the render that serves the deferred request has not begun yet.
\<close>

definition upd_pre :: "state \<Rightarrow> bool" where
  "upd_pre s =
     (in_flight 0 (trace s) = Some (if isRendering s then 1 else 0) \<and>
      (isRendering s \<longrightarrow> unserved False (trace s) = isUpdatePending s) \<and>
      (isRendering s \<or> \<not> isUpdatePending s))"

definition upd_ok :: "state \<Rightarrow> result \<Rightarrow> bool" where
  "upd_ok s r = (\<forall>out. r = Some out \<longrightarrow> upd_pre s \<longrightarrow> sched_rel s out)"

subsection \<open>What a call leaves alone\<close>

text \<open>The slot of the pending-action bridge; empty where there is no \<open>window\<close>.\<close>

definition slot :: "state \<Rightarrow> string option" where
  "slot s = (case window s of None \<Rightarrow> None | Some w \<Rightarrow> pendingDispatch w)"

fun is_add :: "event \<Rightarrow> bool" where
  "is_add (ApiCall op d) = (op = ''snippet.add'')"
| "is_add e = False"

text \<open>How many times \<open>api.snippet.add\<close> has been called.\<close>

definition count_add :: "event list \<Rightarrow> nat" where
  "count_add tr = length (filter is_add tr)"

fun is_response :: "event \<Rightarrow> bool" where
  "is_response (ResStatus k) = True"
| "is_response (ResRender v) = True"
| "is_response e = False"

text \<open>
  From \<open>s\<close> to \<open>s'\<close>: the user name is the same; a \<open>window\<close> is there in both or in
  neither; nothing was written to the HTTP response; without a user name
  \<open>api.snippet.add\<close> was not called; with one, an empty slot is still empty.
\<close>

definition kept :: "state \<Rightarrow> state \<Rightarrow> bool" where
  "kept s s' =
     (userName (store s') = userName (store s) \<and>
      (window s' = None) = (window s = None) \<and>
      filter is_response (trace s') = filter is_response (trace s) \<and>
      (if eq_null (userName (store s)) then count_add (trace s') = count_add (trace s)
       else slot s = None \<longrightarrow> slot s' = None))"

definition kept_ok :: "state \<Rightarrow> result \<Rightarrow> bool" where
  "kept_ok s r = (\<forall>out. r = Some out \<longrightarrow> kept s (state_of out))"

subsection \<open>More depth\<close>

text \<open>\<open>r'\<close> is \<open>r\<close>, or \<open>r\<close> has not come back.\<close>

definition extends :: "result \<Rightarrow> result \<Rightarrow> bool" where
  "extends r r' = (r = None \<or> r' = r)"

section \<open>An example environment\<close>

text \<open>
  A render that sets the title and asks for the list of snippets while the title is not
  set, and does nothing once it is; a router with a home page; and \<open>JSON\<close> on the one
  action that the examples save.
\<close>

definition example_render :: "store \<Rightarrow> (jv \<times> jv) list" where
  "example_render st =
     (if title (app st) = JNull
      then [(JStr ''APP_TITLE'', JStr ''Home''), (JStr ''API_SNIPPET_ALL'', JObj []),
            (JStr ''APP_TITLE'', JStr ''Top'')]
      else [])"

definition example_route :: "jv \<Rightarrow> jv" where
  "example_route url =
     JObj [(''name'', if url = JStr ''/'' then JStr ''home'' else JStr ''not-found''),
           (''params'', JObj []), (''url'', url), (''query'', JObj []), (''pathname'', url)]"

definition example_action :: jv where
  "example_action = JObj [(''type'', JStr ''API_SNIPPET_ADD''), (''data'', JStr ''hello'')]"

definition example_json :: string where
  "example_json =
     ''{'' @ [CHR 0x22] @ ''type'' @ [CHR 0x22] @ '':'' @ [CHR 0x22] @ ''API_SNIPPET_ADD'' @
     [CHR 0x22] @ '','' @ [CHR 0x22] @ ''data'' @ [CHR 0x22] @ '':'' @ [CHR 0x22] @ ''hello'' @
     [CHR 0x22] @ ''}''"

definition example_env :: env where
  "example_env =
     \<lparr> render = example_render,
       onFetchDone = None,
       loc_push = (\<lambda>url. [example_route url]),
       loc_replace = (\<lambda>url. [example_route url]),
       loc_back = [],
       config_isBrowser = False,
       config_name = ''BitMidi'',
       to_string = (\<lambda>v. ''[object Object]''),
       json_stringify = (\<lambda>v. if v = example_action then example_json else ''null''),
       json_parse = (\<lambda>raw. if raw = example_json then Some example_action else None),
       querystring_encode = (\<lambda>v. case get_prop ''q'' v of Some (JStr q) \<Rightarrow> ''q='' @ q | _ \<Rightarrow> []) \<rparr>"

text \<open>The same with a render that dispatches nothing.\<close>

definition quiet_env :: env where
  "quiet_env = example_env\<lparr>render := (\<lambda>st. [])\<rparr>"

definition example_window :: window where
  "example_window = \<lparr> pendingDispatch = None, href = ''/new'' \<rparr>"

text \<open>A store whose location is the home page, and one whose location matched no route.\<close>

definition example_home :: state where
  "example_home =
     (createStore None)\<lparr>store := initial_store\<lparr>location := example_route (JStr ''/'')\<rparr>\<rparr>"

definition example_not_found :: state where
  "example_not_found =
     (createStore None)
       \<lparr> store := initial_store\<lparr>location := example_route (JStr ''/nope'')\<rparr>,
         trace := [LocReplace (JStr ''/nope''), RenderBegin, RenderEnd] \<rparr>"

text \<open>A browser store with a user logged in, and an error as an \<open>api\<close> callback gets it.\<close>

definition example_logged_in :: state where
  "example_logged_in =
     (createStore (Some example_window))\<lparr>store := initial_store\<lparr>userName := JStr ''ada''\<rparr>\<rparr>"

definition example_failure :: jv where
  "example_failure = JObj [(''err'', new_Error ''Not Found''), (''snippet'', JUndefined)]"


text \<open>A render that reports the home page as the location while the store has none.\<close>

definition routing_env :: env where
  "routing_env =
     example_env\<lparr>render := (\<lambda>st. if get_prop ''name'' (location st) = Some JNull
                                   then [(JStr ''LOCATION_CHANGED'', example_route (JStr ''/''))]
                                   else [])\<rparr>"

text \<open>
  A render that sets the title and then dispatches a misspelt type, and the state that its
  throw leaves behind.
\<close>

definition failing_env :: env where
  "failing_env =
     example_env\<lparr>render := (\<lambda>st. [(JStr ''APP_TITLE'', JStr ''Home''),
                                    (JStr ''APP_REZISE'', JNull)])\<rparr>"

definition example_stuck :: state where
  "example_stuck =
     (createStore None)
       \<lparr> store := initial_store
           \<lparr>app := (app initial_store)
              \<lparr>title := JStr (''Home'' @ title_separator @ ''BitMidi'')\<rparr>\<rparr>,
         isRendering := True,
         isUpdatePending := True,
         trace := [RenderBegin, Deferred] \<rparr>"

section \<open>Small facts about the helpers\<close>

lemma and_then_simps [simp]:
  "and_then (Some (Return s)) f = f s"
  "and_then (Some (Throw e s)) f = Some (Throw e s)"
  "and_then None f = None"
  by (simp_all add: and_then_def)

lemma dispatch_Suc:
  "dispatch (Suc n) env = dispatch_body env (dispatch n env) (update n env)"
  by (simp add: dispatch_def update_def)

lemma update_Suc:
  "update (Suc n) env = update_body env (dispatch n env) (update n env)"
  by (simp add: dispatch_def update_def)

lemma dispatch_0 [simp]: "dispatch 0 env type data s = None"
  by (simp add: dispatch_def)

lemma update_0 [simp]: "update 0 env s = None"
  by (simp add: update_def)

lemma update_quiet:
  assumes "\<not> isRendering s" and "\<not> isUpdatePending s" and "render env (store s) = []"
  shows "update (Suc n) env s = Some (Return (emit RenderEnd (emit RenderBegin s)))"
  using assms
  by (simp add: update_Suc update_body_def run_render_def and_then_def emit_def Let_def)

lemma update_deferred:
  "isRendering s \<Longrightarrow>
   update (Suc n) env s = Some (Return (emit Deferred (s\<lparr>isUpdatePending := True\<rparr>)))"
  by (simp add: update_Suc update_body_def)

lemma get_prop_truthy: "truthy v \<Longrightarrow> \<exists>x. get_prop k v = Some x"
  by (cases v) auto

lemma get_prop_other: "get_prop k v = Some x \<Longrightarrow> \<exists>y. get_prop k' v = Some y"
  by (cases v) auto

lemma strict_eq_JStr [simp]: "strict_eq a (JStr x) = (a = JStr x)"
  by (cases a) auto

section \<open>The scheduler's invariant\<close>

lemma in_flight_append:
  "in_flight d (xs @ ys) = (case in_flight d xs of None \<Rightarrow> None | Some d' \<Rightarrow> in_flight d' ys)"
  by (induction d xs rule: in_flight.induct) auto

lemma unserved_append: "unserved p (xs @ ys) = unserved (unserved p xs) ys"
  by (induction p xs rule: unserved.induct) auto

lemma in_flight_neutral: "neutral e \<Longrightarrow> in_flight d [e] = Some d"
  by (cases e) (auto simp: neutral_def)

lemma unserved_neutral: "neutral e \<Longrightarrow> unserved p [e] = p"
  by (cases e) (auto simp: neutral_def)

lemma neutral_simps [simp]:
  "neutral (LocPush v)" "neutral (LocReplace v)" "neutral LocBack" "neutral (Ga v)"
  "neutral (ApiCall op v)" "neutral (ClipboardCopy v)" "neutral (ConsoleError v)"
  "neutral (ResStatus k)" "neutral (ResRender v)" "neutral OnFetchDone"
  by (simp_all add: neutral_def)

lemma count_renders_append: "count_renders (xs @ ys) = count_renders xs + count_renders ys"
  by (simp add: count_renders_def)

lemma count_renders_neutral: "neutral e \<Longrightarrow> count_renders [e] = 0"
  by (simp add: count_renders_def neutral_def)

lemma count_deferred_append:
  "count_deferred (xs @ ys) = count_deferred xs + count_deferred ys"
  by (simp add: count_deferred_def)

lemma count_deferred_neutral: "neutral e \<Longrightarrow> count_deferred [e] = 0"
  by (simp add: count_deferred_def neutral_def)

lemma sched_emit [simp]: "neutral e \<Longrightarrow> sched (emit e s) = sched s"
  by (simp add: sched_def emit_def in_flight_append unserved_append in_flight_neutral
      unserved_neutral count_renders_append count_renders_neutral count_deferred_append
      count_deferred_neutral split: option.splits)

lemma sched_fields [simp]:
  "sched (s\<lparr>store := st\<rparr>) = sched s"
  "sched (s\<lparr>window := w\<rparr>) = sched s"
  "sched (s\<lparr>nextTickQueue := q\<rparr>) = sched s"
  by (simp_all add: sched_def)

lemma sched_fetchStart [simp]: "sched (fetchStart s) = sched s"
  by (simp add: fetchStart_def)

lemma sched_fetchDone [simp]: "sched (fetchDone env s) = sched s"
  by (simp add: fetchDone_def Let_def split: option.splits)

lemma sched_inv_cong: "sched s' = sched s \<Longrightarrow> sched_inv s' = sched_inv s"
  by (auto simp: sched_def sched_inv_def)

lemma sched_isRendering: "sched s' = sched s \<Longrightarrow> isRendering s' = isRendering s"
  by (simp add: sched_def)

lemma sched_count_renders:
  "sched s' = sched s \<Longrightarrow> count_renders (trace s') = count_renders (trace s)"
  by (simp add: sched_def)

lemma sched_pending:
  "sched s' = sched s \<Longrightarrow>
   isUpdatePending s' = isUpdatePending s \<and>
   count_deferred (trace s') = count_deferred (trace s)"
  by (simp add: sched_def)

lemma sched_inv_upd_pre: "sched_inv s \<Longrightarrow> upd_pre s"
  by (auto simp: sched_inv_def upd_pre_def)

lemma sched_ok_None [simp]: "sched_ok s None"
  by (simp add: sched_ok_def)

lemma sched_ok_Return: "sched s' = sched s \<Longrightarrow> sched_ok s (Some (Return s'))"
  using sched_inv_cong [of s' s] sched_isRendering [of s' s] sched_count_renders [of s' s]
    sched_pending [of s' s]
  by (simp add: sched_ok_def sched_rel_def)

lemma sched_ok_Throw: "sched s' = sched s \<Longrightarrow> sched_ok s (Some (Throw e s'))"
  using sched_inv_cong [of s' s] sched_isRendering [of s' s] sched_count_renders [of s' s]
    sched_pending [of s' s]
  by (simp add: sched_ok_def sched_rel_def)

lemma sched_ok_shift: "sched s' = sched s \<Longrightarrow> sched_ok s' r \<Longrightarrow> sched_ok s r"
  using sched_inv_cong [of s' s] sched_isRendering [of s' s] sched_count_renders [of s' s]
    sched_pending [of s' s]
  by (simp add: sched_ok_def sched_rel_def)

lemma sched_ok_and_then:
  assumes "sched_ok s r" and "\<And>s1. r = Some (Return s1) \<Longrightarrow> sched_ok s1 (g s1)"
  shows "sched_ok s (and_then r g)"
proof (cases r)
  case None
  then show ?thesis by (simp add: and_then_def)
next
  case (Some out)
  show ?thesis
  proof (cases out)
    case (Return s1)
    with Some assms show ?thesis
      by (auto simp add: and_then_def sched_ok_def sched_rel_def)
  next
    case (Throw e s1)
    with Some assms(1) show ?thesis by (simp add: and_then_def)
  qed
qed

lemma upd_ok_sched_ok: "upd_ok s r \<Longrightarrow> sched_ok s r"
  by (auto simp: upd_ok_def sched_ok_def sched_inv_upd_pre)

lemma sched_ok_upd:
  assumes "\<And>s. upd_ok s (upd s)" and "sched s' = sched s"
  shows "sched_ok s (upd s')"
  using assms by (blast intro: sched_ok_shift upd_ok_sched_ok)

lemma sched_ok_disp:
  assumes "\<And>t d s. sched_ok s (disp t d s)" and "sched s' = sched s"
  shows "sched_ok s (disp t d s')"
  using assms by (blast intro: sched_ok_shift)

lemma sched_ok_dispatch_all:
  assumes "\<And>t d s. sched_ok s (disp t d s)"
  shows "sched_ok s (dispatch_all disp acts s)"
proof (induction acts arbitrary: s)
  case Nil
  show ?case by (simp add: sched_ok_Return)
next
  case (Cons a acts)
  show ?case by (simp add: sched_ok_and_then assms Cons)
qed

lemma sched_ok_loc_notify:
  assumes "\<And>t d s. sched_ok s (disp t d s)" and "sched s' = sched s"
  shows "sched_ok s (loc_notify disp locs s')"
  unfolding loc_notify_def
  using assms by (blast intro: sched_ok_shift sched_ok_dispatch_all)

lemma sched_ok_addError:
  assumes "\<And>s. upd_ok s (upd s)" and "sched s' = sched s"
  shows "sched_ok s (addError upd err s')"
  using assms
  by (auto simp add: addError_def split: option.splits intro!: sched_ok_upd sched_ok_Throw)

lemma sched_ok_addSnippet: "sched s' = sched s \<Longrightarrow> sched_ok s (addSnippet env x s')"
  by (auto simp add: addSnippet_def split: option.splits intro!: sched_ok_Return sched_ok_Throw)

lemma sched_ok_addSearch: "sched s' = sched s \<Longrightarrow> sched_ok s (addSearch env x s')"
  by (auto simp add: addSearch_def split: option.splits intro!: sched_ok_Return sched_ok_Throw)

lemma sched_ok_addSnippets: "sched s' = sched s \<Longrightarrow> sched_ok s (addSnippets env xs s')"
proof (induction xs arbitrary: s s')
  case Nil
  then show ?case by (simp add: sched_ok_Return)
next
  case (Cons x xs)
  show ?case
    by (simp add: sched_ok_and_then sched_ok_addSnippet Cons)
qed

lemma sched_ok_addPendingDispatch:
  "sched s' = sched s \<Longrightarrow> sched_ok s (addPendingDispatch env t d s')"
  by (auto simp add: addPendingDispatch_def split: option.splits
      intro!: sched_ok_Return sched_ok_Throw)

lemmas sched_ok_intros =
  sched_ok_Return sched_ok_Throw sched_ok_addSnippet sched_ok_addSearch sched_ok_addSnippets
  sched_ok_addPendingDispatch

lemma sched_ok_dispatch_body:
  assumes D: "\<And>t d s. sched_ok s (disp t d s)" and U: "\<And>s. upd_ok s (upd s)"
  shows "sched_ok s (dispatch_body env disp upd type data s)"
proof -
  note I = sched_ok_intros sched_ok_upd [OF U] sched_ok_addError [OF U]
    sched_ok_disp [OF D] sched_ok_loc_notify [OF D]
  have 1: "sched_ok s (case_LOCATION_PUSH env disp data s)"
    by (auto simp add: case_LOCATION_PUSH_def split: option.splits intro!: I)
  have 2: "sched_ok s (case_LOCATION_REPLACE env disp data s)"
    by (auto simp add: case_LOCATION_REPLACE_def split: option.splits intro!: I)
  have 3: "sched_ok s (case_LOCATION_BACK env disp s)"
    by (auto simp add: case_LOCATION_BACK_def intro!: I)
  have 4: "sched_ok s (case_LOCATION_CHANGED env upd data s)"
    by (auto simp add: case_LOCATION_CHANGED_def Let_def split: option.splits intro!: I)
  have 5: "sched_ok s (case_APP_TITLE env upd data s)"
    by (auto simp add: case_APP_TITLE_def Let_def intro!: I)
  have 6: "sched_ok s (case_APP_RESIZE upd data s)"
    by (auto simp add: case_APP_RESIZE_def Let_def split: option.splits intro!: I)
  have 7: "sched_ok s (case_API_start op upd data s)" for op
    by (auto simp add: case_API_start_def intro!: I)
  have 8: "sched_ok s (case_API_DOC_DONE env upd data s)"
    by (auto simp add: case_API_DOC_DONE_def Let_def split: option.splits intro!: I)
  have 9: "sched_ok s (case_API_SNIPPET_ADD env upd t data s)" for t
    by (auto simp add: case_API_SNIPPET_ADD_def Let_def split: option.splits
        intro!: I sched_ok_and_then)
  have 10: "sched_ok s (case_API_SNIPPET_ADD_DONE env disp upd data s)"
    by (auto simp add: case_API_SNIPPET_ADD_DONE_def Let_def split: option.splits
        intro!: I sched_ok_and_then)
  have 11: "sched_ok s (case_API_SNIPPET_one_DONE env upd data s)"
    by (auto simp add: case_API_SNIPPET_one_DONE_def Let_def split: option.splits
        intro!: I sched_ok_and_then)
  have 12: "sched_ok s (case_API_SNIPPET_ALL_DONE env upd data s)"
    by (auto simp add: case_API_SNIPPET_ALL_DONE_def Let_def split: option.splits jv.splits
        intro!: I sched_ok_and_then)
  have 13: "sched_ok s (case_API_SNIPPET_SEARCH_DONE env upd data s)"
    by (auto simp add: case_API_SNIPPET_SEARCH_DONE_def Let_def split: option.splits
        intro!: I sched_ok_and_then)
  have 14: "sched_ok s (case_SEARCH_INPUT env disp data s)"
    by (auto simp add: case_SEARCH_INPUT_def Let_def split: option.splits intro!: I)
  have 15: "sched_ok s (case_CLIPBOARD_COPY data s)"
    by (auto simp add: case_CLIPBOARD_COPY_def intro!: I)
  have 16: "sched_ok s (case_RUN_PENDING_DISPATCH env disp upd s)"
    by (auto simp add: case_RUN_PENDING_DISPATCH_def Let_def split: option.splits
        intro!: I sched_ok_and_then)
  show ?thesis
    unfolding dispatch_body_def
    using 1 2 3 4 5 6 7 8 9 10 11 12 13 14 15 16
    by (simp add: sched_ok_Throw)
qed

lemma upd_ok_update_body:
  assumes D: "\<And>t d s. sched_ok s (disp t d s)" and U: "\<And>s. upd_ok s (upd s)"
  shows "upd_ok s (update_body env disp upd s)"
proof (cases "isRendering s")
  case True
  then show ?thesis
    by (auto simp add: update_body_def upd_ok_def upd_pre_def sched_rel_def sched_inv_def
        emit_def in_flight_append unserved_append count_renders_append count_renders_def
        count_deferred_def)
next
  case False
  show ?thesis
    unfolding upd_ok_def
  proof (intro allI impI)
    fix out
    assume res: "update_body env disp upd s = Some out" and pre: "upd_pre s"
    let ?s0 = "emit RenderBegin (s\<lparr>isRendering := True\<rparr>)"
    from pre False have inv0: "sched_inv ?s0" and r0: "isRendering ?s0"
      by (auto simp add: upd_pre_def sched_inv_def emit_def in_flight_append unserved_append)
    have ok: "sched_ok ?s0 (dispatch_all disp (render env (store s)) ?s0)"
      by (rule sched_ok_dispatch_all [OF D])
    show "sched_rel s out"
    proof (cases "dispatch_all disp (render env (store s)) ?s0")
      case None
      with res False show ?thesis
        by (simp add: update_body_def run_render_def and_then_def emit_def)
    next
      case (Some o1)
      with ok inv0 have rel1: "sched_rel ?s0 o1"
        by (simp add: sched_ok_def)
      show ?thesis
      proof (cases o1)
        case (Throw e s1)
        with Some res False have "out = Throw e s1"
          by (simp add: update_body_def run_render_def and_then_def emit_def)
        with rel1 Throw False show ?thesis
          by (simp add: sched_rel_def)
      next
        case (Return s1)
        with rel1 r0 have inv1: "sched_inv s1" and r1: "isRendering s1"
          by (simp_all add: sched_rel_def)
        let ?s2 = "(emit RenderEnd s1)\<lparr>isRendering := False\<rparr>"
        from Some Return res False have out:
          "Some out = (if isUpdatePending s1 then upd (?s2\<lparr>isUpdatePending := False\<rparr>)
                       else Some (Return ?s2))"
          by (auto simp add: update_body_def run_render_def and_then_def emit_def Let_def
              split: if_splits)
        show ?thesis
        proof (cases "isUpdatePending s1")
          case False
          with out have "out = Return ?s2" by simp
          with inv1 r1 False \<open>\<not> isRendering s\<close> show ?thesis
            by (auto simp add: sched_rel_def sched_inv_def emit_def in_flight_append
                unserved_append)
        next
          case True
          let ?s3 = "?s2\<lparr>isUpdatePending := False\<rparr>"
          from True out have "upd ?s3 = Some out" by simp
          moreover from inv1 r1 have "upd_pre ?s3"
            by (auto simp add: upd_pre_def sched_inv_def emit_def in_flight_append)
          ultimately have "sched_rel ?s3 out"
            using U [of ?s3] by (simp add: upd_ok_def)
          with \<open>\<not> isRendering s\<close> show ?thesis
            by (simp add: sched_rel_def emit_def)
        qed
      qed
    qed
  qed
qed

lemma sched_closure:
  "(\<forall>t d s. sched_ok s (dispatch n env t d s)) \<and> (\<forall>s. upd_ok s (update n env s))"
proof (induction n)
  case 0
  show ?case by (simp add: sched_ok_def upd_ok_def)
next
  case (Suc n)
  then show ?case
    by (simp add: dispatch_Suc update_Suc sched_ok_dispatch_body upd_ok_update_body)
qed

section \<open>What every call leaves alone\<close>

lemma kept_refl [simp]: "kept s s"
  by (simp add: kept_def)

lemma kept_trans: "kept s s1 \<Longrightarrow> kept s1 s2 \<Longrightarrow> kept s s2"
  by (auto simp add: kept_def split: if_splits)

lemma kept_ok_None [simp]: "kept_ok s None"
  by (simp add: kept_ok_def)

lemma kept_ok_Return: "kept s s' \<Longrightarrow> kept_ok s (Some (Return s'))"
  by (simp add: kept_ok_def)

lemma kept_ok_Throw: "kept s s' \<Longrightarrow> kept_ok s (Some (Throw e s'))"
  by (simp add: kept_ok_def)

lemma kept_ok_shift: "kept s s' \<Longrightarrow> kept_ok s' r \<Longrightarrow> kept_ok s r"
  by (auto simp add: kept_ok_def intro: kept_trans)

lemma kept_ok_and_then:
  assumes "kept_ok s r" and "\<And>s1. r = Some (Return s1) \<Longrightarrow> kept_ok s1 (g s1)"
  shows "kept_ok s (and_then r g)"
proof (cases r)
  case None
  then show ?thesis by (simp add: and_then_def)
next
  case (Some out)
  show ?thesis
  proof (cases out)
    case (Return s1)
    with Some assms have "kept s s1" and "kept_ok s1 (g s1)"
      by (simp_all add: kept_ok_def)
    then have "kept_ok s (g s1)" by (rule kept_ok_shift)
    with Some Return show ?thesis by (simp add: and_then_def)
  next
    case (Throw e s1)
    with Some assms(1) show ?thesis by (simp add: and_then_def)
  qed
qed

lemma kept_ok_upd:
  assumes "\<And>s. kept_ok s (upd s)" and "kept s s'"
  shows "kept_ok s (upd s')"
  using assms by (blast intro: kept_ok_shift)

lemma kept_ok_disp:
  assumes "\<And>t d s. kept_ok s (disp t d s)" and "kept s s'"
  shows "kept_ok s (disp t d s')"
  using assms by (blast intro: kept_ok_shift)

lemma kept_ok_dispatch_all:
  assumes "\<And>t d s. kept_ok s (disp t d s)"
  shows "kept_ok s (dispatch_all disp acts s)"
proof (induction acts arbitrary: s)
  case Nil
  show ?case by (simp add: kept_ok_Return)
next
  case (Cons a acts)
  show ?case by (simp add: kept_ok_and_then assms Cons)
qed

lemma kept_ok_loc_notify:
  assumes "\<And>t d s. kept_ok s (disp t d s)" and "kept s s'"
  shows "kept_ok s (loc_notify disp locs s')"
  unfolding loc_notify_def
  by (rule kept_ok_shift [OF assms(2) kept_ok_dispatch_all [OF assms(1)]])

lemma kept_emit [simp]:
  "\<not> is_response e \<Longrightarrow> \<not> is_add e \<Longrightarrow> kept s (emit e s') = kept s s'"
  by (simp add: kept_def emit_def slot_def count_add_def)

lemma kept_emit_add [simp]:
  "\<not> eq_null (userName (store s)) \<Longrightarrow> kept s (emit (ApiCall op d) s') = kept s s'"
  by (simp add: kept_def emit_def slot_def)

lemma kept_store [simp]:
  "userName st = userName (store s') \<Longrightarrow> kept s (s'\<lparr>store := st\<rparr>) = kept s s'"
  by (simp add: kept_def slot_def)

lemma kept_fetchStart [simp]: "kept s (fetchStart s') = kept s s'"
  by (simp add: fetchStart_def)

lemma kept_fetchDone [simp]: "kept s (fetchDone env s') = kept s s'"
  by (simp add: fetchDone_def kept_def slot_def emit_def count_add_def Let_def
      split: option.splits)

lemma kept_href [simp]:
  "window s' = Some w \<Longrightarrow> kept s (s'\<lparr>window := Some (w\<lparr>href := h\<rparr>)\<rparr>) = kept s s'"
  by (simp add: kept_def slot_def)

lemma kept_clear:
  "window s' = Some w \<Longrightarrow> kept s s' \<Longrightarrow> kept s (s'\<lparr>window := Some (w\<lparr>pendingDispatch := None\<rparr>)\<rparr>)"
  by (simp add: kept_def slot_def)

lemma kept_userName: "kept s s' \<Longrightarrow> userName (store s') = userName (store s)"
  by (simp add: kept_def)

lemma kept_ok_addError:
  assumes "\<And>s. kept_ok s (upd s)" and "kept s s'"
  shows "kept_ok s (addError upd err s')"
  using assms(2)
  by (auto simp add: addError_def split: option.splits
      intro!: kept_ok_upd [OF assms(1)] kept_ok_Throw)

lemma kept_ok_addSnippet: "kept s s' \<Longrightarrow> kept_ok s (addSnippet env x s')"
  by (auto simp add: addSnippet_def split: option.splits intro!: kept_ok_Return kept_ok_Throw)

lemma kept_ok_addSearch: "kept s s' \<Longrightarrow> kept_ok s (addSearch env x s')"
  by (auto simp add: addSearch_def split: option.splits intro!: kept_ok_Return kept_ok_Throw)

lemma kept_ok_addSnippets: "kept s s' \<Longrightarrow> kept_ok s (addSnippets env xs s')"
proof (induction xs arbitrary: s s')
  case Nil
  then show ?case by (simp add: kept_ok_Return)
next
  case (Cons x xs)
  show ?case
    by (simp add: kept_ok_and_then kept_ok_addSnippet Cons)
qed

lemma kept_ok_addPendingDispatch:
  assumes "kept s s'" and "eq_null (userName (store s'))"
  shows "kept_ok s (addPendingDispatch env t d s')"
proof -
  have "kept_ok s' (addPendingDispatch env t d s')"
    using assms(2)
    by (auto simp add: addPendingDispatch_def kept_def slot_def split: option.splits
        intro!: kept_ok_Return kept_ok_Throw)
  with assms(1) show ?thesis by (rule kept_ok_shift)
qed

lemma kept_ok_dispatch_body:
  assumes D: "\<And>t d s. kept_ok s (disp t d s)" and U: "\<And>s. kept_ok s (upd s)"
  shows "kept_ok s (dispatch_body env disp upd type data s)"
proof -
  note I = kept_ok_Return kept_ok_Throw kept_ok_upd [OF U] kept_ok_addError [OF U]
    kept_ok_disp [OF D] kept_ok_loc_notify [OF D] kept_ok_addSnippet kept_ok_addSearch
    kept_ok_addSnippets
  have 1: "kept_ok s (case_LOCATION_PUSH env disp data s)"
    by (auto simp add: case_LOCATION_PUSH_def split: option.splits intro!: I)
  have 2: "kept_ok s (case_LOCATION_REPLACE env disp data s)"
    by (auto simp add: case_LOCATION_REPLACE_def split: option.splits intro!: I)
  have 3: "kept_ok s (case_LOCATION_BACK env disp s)"
    by (auto simp add: case_LOCATION_BACK_def intro!: I)
  have 4: "kept_ok s (case_LOCATION_CHANGED env upd data s)"
    by (auto simp add: case_LOCATION_CHANGED_def Let_def split: option.splits intro!: I)
  have 5: "kept_ok s (case_APP_TITLE env upd data s)"
    by (auto simp add: case_APP_TITLE_def Let_def intro!: I)
  have 6: "kept_ok s (case_APP_RESIZE upd data s)"
    by (auto simp add: case_APP_RESIZE_def Let_def split: option.splits intro!: I)
  have 7: "op \<noteq> ''snippet.add'' \<Longrightarrow> kept_ok s (case_API_start op upd data s)" for op
    by (auto simp add: case_API_start_def intro!: I)
  have 8: "kept_ok s (case_API_DOC_DONE env upd data s)"
    by (auto simp add: case_API_DOC_DONE_def Let_def split: option.splits intro!: I)
  have 9: "kept_ok s (case_API_SNIPPET_ADD env upd t data s)" for t
  proof (cases "eq_null (userName (store s))")
    case True
    have "kept_ok s3 (case window s3 of
                None \<Rightarrow> Some (Throw ReferenceError s3)
              | Some w \<Rightarrow> Some (Return (s3\<lparr>window := Some (w\<lparr>href := ''/auth/twitter''\<rparr>)\<rparr>)))" for s3
      by (auto split: option.splits intro!: I)
    with True show ?thesis
      by (auto simp add: case_API_SNIPPET_ADD_def Let_def fetchStart_def
          intro!: kept_ok_and_then kept_ok_addPendingDispatch I)
  next
    case False
    then show ?thesis
      by (auto simp add: case_API_SNIPPET_ADD_def Let_def fetchStart_def intro!: I)
  qed
  have 10: "kept_ok s (case_API_SNIPPET_ADD_DONE env disp upd data s)"
    by (auto simp add: case_API_SNIPPET_ADD_DONE_def Let_def split: option.splits
        intro!: I kept_ok_and_then)
  have 11: "kept_ok s (case_API_SNIPPET_one_DONE env upd data s)"
    by (auto simp add: case_API_SNIPPET_one_DONE_def Let_def split: option.splits
        intro!: I kept_ok_and_then)
  have 12: "kept_ok s (case_API_SNIPPET_ALL_DONE env upd data s)"
    by (auto simp add: case_API_SNIPPET_ALL_DONE_def Let_def split: option.splits jv.splits
        intro!: I kept_ok_and_then)
  have 13: "kept_ok s (case_API_SNIPPET_SEARCH_DONE env upd data s)"
    by (auto simp add: case_API_SNIPPET_SEARCH_DONE_def Let_def split: option.splits
        intro!: I kept_ok_and_then)
  have 14: "kept_ok s (case_SEARCH_INPUT env disp data s)"
    by (auto simp add: case_SEARCH_INPUT_def Let_def split: option.splits intro!: I)
  have 15: "kept_ok s (case_CLIPBOARD_COPY data s)"
    by (auto simp add: case_CLIPBOARD_COPY_def intro!: I)
  have 16: "kept_ok s (case_RUN_PENDING_DISPATCH env disp upd s)"
    by (auto simp add: case_RUN_PENDING_DISPATCH_def Let_def split: option.splits
        intro!: I kept_ok_and_then kept_clear)
  show ?thesis
    unfolding dispatch_body_def
    using 1 2 3 4 5 6 7 8 9 10 11 12 13 14 15 16
    by (simp add: kept_ok_Throw)
qed

lemma kept_ok_update_body:
  assumes D: "\<And>t d s. kept_ok s (disp t d s)" and U: "\<And>s. kept_ok s (upd s)"
  shows "kept_ok s (update_body env disp upd s)"
proof -
  have a: "kept s (s\<lparr>isUpdatePending := p\<rparr>)" "kept s (s\<lparr>isRendering := p\<rparr>)" for s p
    by (simp_all add: kept_def slot_def)
  have b: "kept s (emit e s)" if "\<not> is_response e" "\<not> is_add e" for s e
    using that by simp
  have r: "kept_ok s (run_render env disp s)" for s
    unfolding run_render_def
    by (auto intro!: kept_ok_and_then kept_ok_Return
        kept_ok_shift [OF _ kept_ok_dispatch_all [OF D]])
  show ?thesis
    unfolding update_body_def Let_def
    by (auto simp add: kept_def emit_def slot_def count_add_def
        intro!: kept_ok_Return kept_ok_and_then kept_ok_shift [OF a(2) r] kept_ok_upd [OF U])
qed

lemma kept_closure:
  "(\<forall>t d s. kept_ok s (dispatch n env t d s)) \<and> (\<forall>s. kept_ok s (update n env s))"
proof (induction n)
  case 0
  show ?case by (simp add: kept_ok_def)
next
  case (Suc n)
  then show ?case
    by (simp add: dispatch_Suc update_Suc kept_ok_dispatch_body kept_ok_update_body)
qed

section \<open>More depth changes no result\<close>

lemma extends_refl [simp]: "extends r r"
  by (simp add: extends_def)

lemma extends_None [simp]: "extends None r"
  by (simp add: extends_def)

lemma extends_and_then:
  assumes "extends r r'" and "\<And>s. extends (g s) (g' s)"
  shows "extends (and_then r g) (and_then r' g')"
proof (cases r)
  case None
  then show ?thesis by simp
next
  case (Some out)
  with assms(1) have "r' = r" by (simp add: extends_def)
  with Some assms(2) show ?thesis by (cases out) simp_all
qed

lemma extends_dispatch_all:
  assumes "\<And>t d s. extends (disp t d s) (disp' t d s)"
  shows "extends (dispatch_all disp acts s) (dispatch_all disp' acts s)"
proof (induction acts arbitrary: s)
  case Nil
  show ?case by simp
next
  case (Cons a acts)
  show ?case by (simp add: extends_and_then assms Cons)
qed

lemma extends_loc_notify:
  assumes "\<And>t d s. extends (disp t d s) (disp' t d s)"
  shows "extends (loc_notify disp locs s) (loc_notify disp' locs s)"
  unfolding loc_notify_def by (rule extends_dispatch_all [OF assms])

lemma extends_addError:
  assumes "\<And>s. extends (upd s) (upd' s)"
  shows "extends (addError upd err s) (addError upd' err s)"
  by (auto simp add: addError_def assms split: option.splits)

lemma extends_dispatch_body:
  assumes D: "\<And>t d s. extends (disp t d s) (disp' t d s)"
    and U: "\<And>s. extends (upd s) (upd' s)"
  shows "extends (dispatch_body env disp upd type data s)
                 (dispatch_body env disp' upd' type data s)"
proof -
  note I = D U extends_loc_notify [OF D] extends_addError [OF U] extends_and_then
  have 1: "extends (case_LOCATION_PUSH env disp data s) (case_LOCATION_PUSH env disp' data s)"
    by (auto simp add: case_LOCATION_PUSH_def split: option.splits intro!: I)
  have 2: "extends (case_LOCATION_REPLACE env disp data s)
                   (case_LOCATION_REPLACE env disp' data s)"
    by (auto simp add: case_LOCATION_REPLACE_def split: option.splits intro!: I)
  have 3: "extends (case_LOCATION_BACK env disp s) (case_LOCATION_BACK env disp' s)"
    by (auto simp add: case_LOCATION_BACK_def intro!: I)
  have 4: "extends (case_LOCATION_CHANGED env upd data s) (case_LOCATION_CHANGED env upd' data s)"
    by (auto simp add: case_LOCATION_CHANGED_def Let_def split: option.splits intro!: I)
  have 5: "extends (case_APP_TITLE env upd data s) (case_APP_TITLE env upd' data s)"
    by (auto simp add: case_APP_TITLE_def Let_def intro!: I)
  have 6: "extends (case_APP_RESIZE upd data s) (case_APP_RESIZE upd' data s)"
    by (auto simp add: case_APP_RESIZE_def Let_def split: option.splits intro!: I)
  have 7: "extends (case_API_start op upd data s) (case_API_start op upd' data s)" for op
    by (auto simp add: case_API_start_def intro!: I)
  have 8: "extends (case_API_DOC_DONE env upd data s) (case_API_DOC_DONE env upd' data s)"
    by (auto simp add: case_API_DOC_DONE_def Let_def split: option.splits intro!: I)
  have 9: "extends (case_API_SNIPPET_ADD env upd t data s)
                   (case_API_SNIPPET_ADD env upd' t data s)" for t
    by (auto simp add: case_API_SNIPPET_ADD_def Let_def split: option.splits intro!: I)
  have 10: "extends (case_API_SNIPPET_ADD_DONE env disp upd data s)
                    (case_API_SNIPPET_ADD_DONE env disp' upd' data s)"
    by (auto simp add: case_API_SNIPPET_ADD_DONE_def Let_def split: option.splits intro!: I)
  have 11: "extends (case_API_SNIPPET_one_DONE env upd data s)
                    (case_API_SNIPPET_one_DONE env upd' data s)"
    by (auto simp add: case_API_SNIPPET_one_DONE_def Let_def split: option.splits intro!: I)
  have 12: "extends (case_API_SNIPPET_ALL_DONE env upd data s)
                    (case_API_SNIPPET_ALL_DONE env upd' data s)"
    by (auto simp add: case_API_SNIPPET_ALL_DONE_def Let_def split: option.splits jv.splits
        intro!: I)
  have 13: "extends (case_API_SNIPPET_SEARCH_DONE env upd data s)
                    (case_API_SNIPPET_SEARCH_DONE env upd' data s)"
    by (auto simp add: case_API_SNIPPET_SEARCH_DONE_def Let_def split: option.splits intro!: I)
  have 14: "extends (case_SEARCH_INPUT env disp data s) (case_SEARCH_INPUT env disp' data s)"
    by (auto simp add: case_SEARCH_INPUT_def Let_def split: option.splits intro!: I)
  have 16: "extends (case_RUN_PENDING_DISPATCH env disp upd s)
                    (case_RUN_PENDING_DISPATCH env disp' upd' s)"
    by (auto simp add: case_RUN_PENDING_DISPATCH_def Let_def split: option.splits intro!: I)
  show ?thesis
    unfolding dispatch_body_def
    using 1 2 3 4 5 6 7 8 9 10 11 12 13 14 16
    by simp
qed

lemma extends_update_body:
  assumes D: "\<And>t d s. extends (disp t d s) (disp' t d s)"
    and U: "\<And>s. extends (upd s) (upd' s)"
  shows "extends (update_body env disp upd s) (update_body env disp' upd' s)"
  unfolding update_body_def run_render_def Let_def
  by (auto intro!: extends_and_then extends_dispatch_all D U)

lemma extends_Suc:
  "(\<forall>t d s. extends (dispatch n env t d s) (dispatch (Suc n) env t d s)) \<and>
   (\<forall>s. extends (update n env s) (update (Suc n) env s))"
proof (induction n)
  case 0
  show ?case by simp
next
  case (Suc n)
  then show ?case
    by (simp add: dispatch_Suc [of "Suc n"] dispatch_Suc [of n] update_Suc [of "Suc n"]
        update_Suc [of n] extends_dispatch_body extends_update_body)
qed

lemma dispatch_more_depth:
  assumes "dispatch n env type data s = Some out"
  shows "dispatch (n + k) env type data s = Some out"
proof (induction k)
  case 0
  from assms show ?case by simp
next
  case (Suc k)
  from extends_Suc [of "n + k" env]
  have "extends (dispatch (n + k) env type data s) (dispatch (Suc (n + k)) env type data s)"
    by blast
  with Suc show ?case by (simp add: extends_def)
qed

lemma update_more_depth:
  assumes "update n env s = Some out"
  shows "update (n + k) env s = Some out"
proof (induction k)
  case 0
  from assms show ?case by simp
next
  case (Suc k)
  from extends_Suc [of "n + k" env]
  have "extends (update (n + k) env s) (update (Suc (n + k)) env s)"
    by blast
  with Suc show ?case by (simp add: extends_def)
qed

section \<open>One render pass\<close>

lemma pass_begin:
  "upd_pre s \<Longrightarrow> \<not> isRendering s \<Longrightarrow> sched_inv (emit RenderBegin (s\<lparr>isRendering := True\<rparr>))"
  by (auto simp add: upd_pre_def sched_inv_def emit_def in_flight_append unserved_append)

lemma pass_facts:
  assumes "upd_pre s" and "\<not> isRendering s"
    and "dispatch_all (dispatch k env) acts (emit RenderBegin (s\<lparr>isRendering := True\<rparr>)) =
           Some (Return s1)"
  shows "isRendering s1"
    and "count_renders (trace s1) = count_renders (trace s) + 1"
    and "count_deferred (trace s) \<le> count_deferred (trace s1)"
    and "isUpdatePending s1 = (count_deferred (trace s) < count_deferred (trace s1))"
proof -
  let ?s0 = "emit RenderBegin (s\<lparr>isRendering := True\<rparr>)"
  have "sched_ok ?s0 (dispatch_all (dispatch k env) acts ?s0)"
    using sched_closure [of k env] by (intro sched_ok_dispatch_all) simp
  with assms(3) pass_begin [OF assms(1,2)] have rel: "sched_rel ?s0 (Return s1)"
    by (simp add: sched_ok_def)
  have s0: "isRendering ?s0" "\<not> isUpdatePending ?s0"
    "count_renders (trace ?s0) = count_renders (trace s) + 1"
    "count_deferred (trace ?s0) = count_deferred (trace s)"
    using assms(1,2)
    by (simp_all add: upd_pre_def emit_def count_renders_def count_deferred_def)
  from rel s0 show "isRendering s1"
    and "count_renders (trace s1) = count_renders (trace s) + 1"
    and "count_deferred (trace s) \<le> count_deferred (trace s1)"
    and "isUpdatePending s1 = (count_deferred (trace s) < count_deferred (trace s1))"
    by (simp_all add: sched_rel_def)
qed

lemma pass_again:
  assumes "sched_inv s1" and "isRendering s1"
  shows "upd_pre ((emit RenderEnd s1)\<lparr>isRendering := False, isUpdatePending := False\<rparr>)"
  using assms by (auto simp add: upd_pre_def sched_inv_def emit_def in_flight_append)

lemma pass_inv:
  assumes "upd_pre s" and "\<not> isRendering s"
    and "dispatch_all (dispatch k env) acts (emit RenderBegin (s\<lparr>isRendering := True\<rparr>)) =
           Some (Return s1)"
  shows "sched_inv s1"
proof -
  let ?s0 = "emit RenderBegin (s\<lparr>isRendering := True\<rparr>)"
  have "sched_ok ?s0 (dispatch_all (dispatch k env) acts ?s0)"
    using sched_closure [of k env] by (intro sched_ok_dispatch_all) simp
  with assms(3) pass_begin [OF assms(1,2)] show ?thesis
    by (simp add: sched_ok_def sched_rel_def)
qed

section \<open>Dispatches that always ask for a render\<close>

lemma requesting_step:
  assumes "isRendering s" and "t \<in> set requesting_types"
  shows "\<exists>s'. dispatch (Suc (Suc n)) env (JStr t) d s = Some (Return s') \<and>
              isRendering s' \<and>
              count_deferred (trace s') = Suc (count_deferred (trace s))"
proof -
  from assms(2) have t:
    "t = ''APP_TITLE'' \<or> t = ''API_DOC'' \<or> t = ''API_SNIPPET_VOTE'' \<or>
     t = ''API_SNIPPET_GET'' \<or> t = ''API_SNIPPET_ALL'' \<or> t = ''API_SNIPPET_SEARCH''"
    by (simp add: requesting_types_def)
  have a: "\<exists>s'. case_APP_TITLE env (update (Suc n) env) d s = Some (Return s') \<and>
                isRendering s' \<and>
                count_deferred (trace s') = Suc (count_deferred (trace s))"
    using assms(1)
    by (simp add: case_APP_TITLE_def update_deferred Let_def emit_def count_deferred_def)
  have b: "\<exists>s'. case_API_start op (update (Suc n) env) d s = Some (Return s') \<and>
                isRendering s' \<and>
                count_deferred (trace s') = Suc (count_deferred (trace s))" for op
    using assms(1)
    by (simp add: case_API_start_def update_deferred fetchStart_def emit_def count_deferred_def)
  from t show ?thesis
    by (elim disjE) (simp_all add: dispatch_Suc [of "Suc n"] dispatch_body_def a b)
qed

lemma requesting_all:
  assumes "isRendering s" and "\<forall>a \<in> set acts. fst a \<in> JStr ` set requesting_types"
  shows "\<exists>s1. dispatch_all (dispatch (Suc (Suc n)) env) acts s = Some (Return s1) \<and>
              isRendering s1 \<and>
              count_deferred (trace s1) = count_deferred (trace s) + length acts"
  using assms
proof (induction acts arbitrary: s)
  case Nil
  then show ?case by simp
next
  case (Cons a acts)
  from Cons.prems(2) obtain t where t: "fst a = JStr t" "t \<in> set requesting_types"
    by auto
  from requesting_step [OF Cons.prems(1) t(2), of n env "snd a"] obtain s' where
    s': "dispatch (Suc (Suc n)) env (JStr t) (snd a) s = Some (Return s')"
        "isRendering s'" "count_deferred (trace s') = Suc (count_deferred (trace s))"
    by blast
  from Cons.IH [OF s'(2)] Cons.prems(2) obtain s1 where
    s1: "dispatch_all (dispatch (Suc (Suc n)) env) acts s' = Some (Return s1)"
        "isRendering s1" "count_deferred (trace s1) = count_deferred (trace s') + length acts"
    by auto
  with s' t(1) show ?case by simp
qed

lemma sched_inv_createStore: "sched_inv (createStore w)"
  by (simp add: sched_inv_def createStore_def)

section \<open>Properties of the store\<close>

text \<open>
  C1. \<open>API_SNIPPET_ADD\<close> without a user name, on the store as \<open>createStore\<close> builds it:
  \<open>fetchStart()\<close> has run before the check of \<open>userName\<close>, so \<open>fetchCount\<close> is 1 when the
  dispatch returns, and no call of \<open>api\<close> is in the trace, so no callback is left that
  would dispatch \<open>API_SNIPPET_ADD_DONE\<close> and take the count back to 0.
\<close>

theorem snippet_add_unauthenticated_leak:
  "dispatch (Suc (Suc 0)) quiet_env (JStr ''API_SNIPPET_ADD'') (JStr ''hello'')
     (createStore (Some example_window)) =
   Some (Return
     \<lparr> store = initial_store
         \<lparr> app := (app initial_store)\<lparr>fetchCount := 1\<rparr>,
           errors := [\<lparr> message = JStr ''Last step! Log in to get credit for your contribution.'',
                       code = JNull \<rparr>] \<rparr>,
       isRendering = False,
       isUpdatePending = False,
       window = Some \<lparr> pendingDispatch = Some example_json, href = ''/auth/twitter'' \<rparr>,
       nextTickQueue = [],
       trace = [ConsoleError
                  (JStr ''Error: Last step! Log in to get credit for your contribution.''),
                RenderBegin, RenderEnd] \<rparr>)"
  by (simp add: dispatch_Suc update_Suc dispatch_body_def case_API_SNIPPET_ADD_def
      createStore_def initial_store_def fetchStart_def addPendingDispatch_def addError_def
      new_Error_def update_body_def run_render_def emit_def and_then_def
      quiet_env_def example_env_def example_window_def example_action_def Let_def)

text \<open>
  C2. From a state in which the flags agree with the trace, every \<open>dispatch\<close> and every
  \<open>update\<close>, returning or throwing, ends in such a state: the render function is never
  called while a call of it is in progress. A call made inside a render does not call the
  render function and ends inside the render; a call that returns outside a render ends
  outside, with nothing pending and every deferred \<open>update()\<close> followed by a render.
  A render pass that returns, whatever it has dispatched, is followed by no further render
  when no \<open>update()\<close> was deferred in it; when any number of them was, at least one, and the
  next pass returns without deferring one, \<open>update\<close> returns after exactly two calls of the
  render function. Dispatches of the types whose block always calls \<open>update()\<close> return and
  defer one \<open>update()\<close> each.
\<close>

theorem render_scheduler:
  assumes "sched_inv s"
  shows
    "(\<forall>type data out. dispatch n env type data s = Some out \<longrightarrow>
        sched_inv (state_of out) \<and>
        (isRendering s \<longrightarrow>
           isRendering (state_of out) \<and>
           count_renders (trace (state_of out)) = count_renders (trace s)) \<and>
        (is_Return out \<and> \<not> isRendering s \<longrightarrow>
           \<not> isRendering (state_of out) \<and> \<not> isUpdatePending (state_of out) \<and>
           \<not> unserved False (trace (state_of out)))) \<and>
     (\<forall>out. update n env s = Some out \<longrightarrow>
        sched_inv (state_of out) \<and>
        (isRendering s \<longrightarrow>
           isRendering (state_of out) \<and>
           count_renders (trace (state_of out)) = count_renders (trace s)) \<and>
        (is_Return out \<and> \<not> isRendering s \<longrightarrow>
           \<not> isRendering (state_of out) \<and> \<not> isUpdatePending (state_of out) \<and>
           \<not> unserved False (trace (state_of out)))) \<and>
     (\<forall>s1. \<not> isRendering s \<and>
           dispatch_all (dispatch (Suc n) env) (render env (store s))
             (emit RenderBegin (s\<lparr>isRendering := True\<rparr>)) = Some (Return s1) \<longrightarrow>
        count_renders (trace s1) = count_renders (trace s) + 1 \<and>
        isUpdatePending s1 = (count_deferred (trace s) < count_deferred (trace s1)) \<and>
        (count_deferred (trace s1) = count_deferred (trace s) \<longrightarrow>
           update (Suc (Suc n)) env s =
             Some (Return ((emit RenderEnd s1)\<lparr>isRendering := False\<rparr>))) \<and>
        (\<forall>s3. count_deferred (trace s) < count_deferred (trace s1) \<and>
              dispatch_all (dispatch n env) (render env (store s1))
                (emit RenderBegin
                   ((emit RenderEnd s1)\<lparr>isRendering := True, isUpdatePending := False\<rparr>)) =
                Some (Return s3) \<and>
              count_deferred (trace s3) = count_deferred (trace s1) \<longrightarrow>
           update (Suc (Suc n)) env s =
             Some (Return ((emit RenderEnd s3)\<lparr>isRendering := False\<rparr>)) \<and>
           \<not> isUpdatePending s3 \<and>
           count_renders (trace s3) = count_renders (trace s) + 2)) \<and>
     (\<not> isRendering s \<and>
      (\<forall>a \<in> set (render env (store s)). fst a \<in> JStr ` set requesting_types) \<longrightarrow>
        (\<exists>s1. dispatch_all (dispatch (Suc (Suc n)) env) (render env (store s))
                 (emit RenderBegin (s\<lparr>isRendering := True\<rparr>)) = Some (Return s1) \<and>
              count_deferred (trace s1) =
                count_deferred (trace s) + length (render env (store s))))"
proof -
  have rel: "sched_inv (state_of out) \<and>
             (isRendering s \<longrightarrow>
                isRendering (state_of out) \<and>
                count_renders (trace (state_of out)) = count_renders (trace s)) \<and>
             (is_Return out \<and> \<not> isRendering s \<longrightarrow>
                \<not> isRendering (state_of out) \<and> \<not> isUpdatePending (state_of out) \<and>
                \<not> unserved False (trace (state_of out)))"
    if "sched_rel s out" for out
    using that by (auto simp add: sched_rel_def sched_inv_def)
  have d: "sched_rel s out" if "dispatch n env type data s = Some out" for type data out
    using that assms sched_closure [of n env] by (simp add: sched_ok_def)
  have u: "sched_rel s out" if "update n env s = Some out" for out
    using that assms sched_closure [of n env] by (simp add: upd_ok_def sched_inv_upd_pre)
  note pre = sched_inv_upd_pre [OF assms]
  have c: "count_renders (trace s1) = count_renders (trace s) + 1 \<and>
           isUpdatePending s1 = (count_deferred (trace s) < count_deferred (trace s1)) \<and>
           (count_deferred (trace s1) = count_deferred (trace s) \<longrightarrow>
              update (Suc (Suc n)) env s =
                Some (Return ((emit RenderEnd s1)\<lparr>isRendering := False\<rparr>))) \<and>
           (\<forall>s3. count_deferred (trace s) < count_deferred (trace s1) \<and>
                 dispatch_all (dispatch n env) (render env (store s1))
                   (emit RenderBegin
                      ((emit RenderEnd s1)\<lparr>isRendering := True, isUpdatePending := False\<rparr>)) =
                   Some (Return s3) \<and>
                 count_deferred (trace s3) = count_deferred (trace s1) \<longrightarrow>
              update (Suc (Suc n)) env s =
                Some (Return ((emit RenderEnd s3)\<lparr>isRendering := False\<rparr>)) \<and>
              \<not> isUpdatePending s3 \<and>
              count_renders (trace s3) = count_renders (trace s) + 2)"
    if nr: "\<not> isRendering s"
      and p1: "dispatch_all (dispatch (Suc n) env) (render env (store s))
                 (emit RenderBegin (s\<lparr>isRendering := True\<rparr>)) = Some (Return s1)"
    for s1
  proof -
    note f1 = pass_facts [OF pre nr p1]
    let ?s2 = "(emit RenderEnd s1)\<lparr>isRendering := False, isUpdatePending := False\<rparr>"
    have first: "update (Suc (Suc n)) env s =
                   (if isUpdatePending s1 then update (Suc n) env ?s2
                    else Some (Return ((emit RenderEnd s1)\<lparr>isRendering := False\<rparr>)))"
      using nr p1
      by (simp add: update_Suc [of "Suc n"] update_body_def run_render_def emit_def Let_def)
    have none: "update (Suc (Suc n)) env s =
                  Some (Return ((emit RenderEnd s1)\<lparr>isRendering := False\<rparr>))"
      if "count_deferred (trace s1) = count_deferred (trace s)"
      using that f1(4) first by simp
    have some: "update (Suc (Suc n)) env s =
                  Some (Return ((emit RenderEnd s3)\<lparr>isRendering := False\<rparr>)) \<and>
                \<not> isUpdatePending s3 \<and>
                count_renders (trace s3) = count_renders (trace s) + 2"
      if g: "count_deferred (trace s) < count_deferred (trace s1)"
        and p2: "dispatch_all (dispatch n env) (render env (store s1))
                   (emit RenderBegin
                      ((emit RenderEnd s1)\<lparr>isRendering := True, isUpdatePending := False\<rparr>)) =
                   Some (Return s3)"
        and q: "count_deferred (trace s3) = count_deferred (trace s1)"
      for s3
    proof -
      have pre2: "upd_pre ?s2" and nr2: "\<not> isRendering ?s2"
        using pass_again [OF pass_inv [OF pre nr p1] f1(1)] by simp_all
      have e: "emit RenderBegin (?s2\<lparr>isRendering := True\<rparr>) =
                 emit RenderBegin
                   ((emit RenderEnd s1)\<lparr>isRendering := True, isUpdatePending := False\<rparr>)"
        by (simp add: emit_def)
      have p2': "dispatch_all (dispatch n env) (render env (store s1))
                   (emit RenderBegin (?s2\<lparr>isRendering := True\<rparr>)) = Some (Return s3)"
        unfolding e by (rule p2)
      note f2 = pass_facts [OF pre2 nr2 p2']
      have cd2: "count_deferred (trace ?s2) = count_deferred (trace s1)"
        and cr2: "count_renders (trace ?s2) = count_renders (trace s1)"
        by (simp_all add: emit_def count_deferred_def count_renders_def)
      from f2(4) q cd2 have np: "\<not> isUpdatePending s3" by simp
      have "update (Suc n) env ?s2 = Some (Return ((emit RenderEnd s3)\<lparr>isRendering := False\<rparr>))"
        using p2' np
        by (simp add: update_Suc [of n] update_body_def run_render_def emit_def Let_def)
      with first f1(4) g have "update (Suc (Suc n)) env s =
          Some (Return ((emit RenderEnd s3)\<lparr>isRendering := False\<rparr>))"
        by simp
      with np f2(2) cr2 f1(2) show ?thesis by simp
    qed
    show ?thesis
      using f1(2,4) none some by blast
  qed
  have r: "\<exists>s1. dispatch_all (dispatch (Suc (Suc n)) env) (render env (store s))
                  (emit RenderBegin (s\<lparr>isRendering := True\<rparr>)) = Some (Return s1) \<and>
               count_deferred (trace s1) =
                 count_deferred (trace s) + length (render env (store s))"
    if h: "\<not> isRendering s \<and>
           (\<forall>a \<in> set (render env (store s)). fst a \<in> JStr ` set requesting_types)"
  proof -
    let ?s0 = "emit RenderBegin (s\<lparr>isRendering := True\<rparr>)"
    have "isRendering ?s0" by (simp add: emit_def)
    from requesting_all [OF this, of "render env (store s)" n env] h obtain s1 where
      "dispatch_all (dispatch (Suc (Suc n)) env) (render env (store s)) ?s0 = Some (Return s1)"
      "count_deferred (trace s1) = count_deferred (trace ?s0) + length (render env (store s))"
      by auto
    then show ?thesis
      by (auto simp add: emit_def count_deferred_def)
  qed
  show ?thesis
    using rel [OF d] rel [OF u] c r by blast
qed

theorem render_scheduler_witness:
  "sched_inv (createStore None) \<and>
   \<not> isRendering (createStore None) \<and>
   render example_env (store (createStore None)) =
     [(JStr ''APP_TITLE'', JStr ''Home''), (JStr ''API_SNIPPET_ALL'', JObj []),
      (JStr ''APP_TITLE'', JStr ''Top'')] \<and>
   update (Suc (Suc (Suc 0))) example_env (createStore None) =
     Some (Return ((createStore None)
       \<lparr> store := initial_store
           \<lparr>app := \<lparr> title = JStr (''Top'' @ title_separator @ ''BitMidi''), width = JNum 0,
                     height = JNum 0, fetchCount = 1 \<rparr>\<rparr>,
         trace := [RenderBegin, Deferred, ApiCall ''snippet.all'' (JObj []), Deferred, Deferred,
                   RenderEnd, RenderBegin, RenderEnd] \<rparr>)) \<and>
   count_renders [RenderBegin, Deferred, ApiCall ''snippet.all'' (JObj []), Deferred, Deferred,
                  RenderEnd, RenderBegin, RenderEnd] = 2 \<and>
   count_deferred [RenderBegin, Deferred, ApiCall ''snippet.all'' (JObj []), Deferred,
                   Deferred] = 3 \<and>
   in_flight 0 [RenderBegin, Deferred, ApiCall ''snippet.all'' (JObj []), Deferred, Deferred,
                RenderEnd, RenderBegin, RenderEnd] = Some 0 \<and>
   unserved False [RenderBegin, Deferred, ApiCall ''snippet.all'' (JObj []), Deferred, Deferred,
                   RenderEnd, RenderBegin, RenderEnd] = False \<and>
   update (Suc (Suc (Suc 0))) routing_env (createStore None) =
     Some (Return ((createStore None)
       \<lparr> store := initial_store\<lparr>location := example_route (JStr ''/'')\<rparr>,
         trace := [RenderBegin, Deferred, RenderEnd, RenderBegin, RenderEnd] \<rparr>)) \<and>
   count_renders [RenderBegin, Deferred, RenderEnd, RenderBegin, RenderEnd] = 2"
proof -
  have a:
    "sched_inv (createStore None) \<and>
     \<not> isRendering (createStore None) \<and>
     render example_env (store (createStore None)) =
       [(JStr ''APP_TITLE'', JStr ''Home''), (JStr ''API_SNIPPET_ALL'', JObj []),
        (JStr ''APP_TITLE'', JStr ''Top'')] \<and>
     update (Suc (Suc (Suc 0))) example_env (createStore None) =
       Some (Return ((createStore None)
         \<lparr> store := initial_store
             \<lparr>app := \<lparr> title = JStr (''Top'' @ title_separator @ ''BitMidi''), width = JNum 0,
                       height = JNum 0, fetchCount = 1 \<rparr>\<rparr>,
           trace := [RenderBegin, Deferred, ApiCall ''snippet.all'' (JObj []), Deferred,
                     Deferred, RenderEnd, RenderBegin, RenderEnd] \<rparr>))"
    using render_scheduler [where s = "createStore None" and env = example_env and n = "Suc 0"]
      sched_inv_createStore [of None]
    by (simp add: createStore_def initial_store_def example_env_def example_render_def
        update_Suc dispatch_Suc update_body_def run_render_def dispatch_body_def
        case_APP_TITLE_def case_API_start_def fetchStart_def str_of_def emit_def Let_def)
  have b:
    "update (Suc (Suc (Suc 0))) routing_env (createStore None) =
       Some (Return ((createStore None)
         \<lparr> store := initial_store\<lparr>location := example_route (JStr ''/'')\<rparr>,
           trace := [RenderBegin, Deferred, RenderEnd, RenderBegin, RenderEnd] \<rparr>))"
    by (simp add: createStore_def initial_store_def example_env_def routing_env_def
        example_route_def update_Suc dispatch_Suc update_body_def run_render_def
        dispatch_body_def case_LOCATION_CHANGED_def emit_def Let_def)
  have c:
    "count_renders [RenderBegin, Deferred, ApiCall ''snippet.all'' (JObj []), Deferred, Deferred,
                    RenderEnd, RenderBegin, RenderEnd] = 2"
    "count_deferred [RenderBegin, Deferred, ApiCall ''snippet.all'' (JObj []), Deferred,
                     Deferred] = 3"
    "in_flight 0 [RenderBegin, Deferred, ApiCall ''snippet.all'' (JObj []), Deferred, Deferred,
                  RenderEnd, RenderBegin, RenderEnd] = Some 0"
    "unserved False [RenderBegin, Deferred, ApiCall ''snippet.all'' (JObj []), Deferred,
                     Deferred, RenderEnd, RenderBegin, RenderEnd] = False"
    "count_renders [RenderBegin, Deferred, RenderEnd, RenderBegin, RenderEnd] = 2"
    by (simp_all add: count_renders_def count_deferred_def)
  from a b c show ?thesis by blast
qed

text \<open>
  A render that throws: \<open>update\<close> has no \<open>finally\<close>, so \<open>isRendering\<close> stays set, with the
  \<open>update()\<close> that the render had deferred still pending. A later \<open>APP_TITLE\<close> dispatch
  returns; its \<open>update()\<close> is deferred as well, and the render function has still been
  called once only.
\<close>

theorem render_scheduler_counterexample:
  "update (Suc (Suc (Suc 0))) failing_env (createStore None) =
     Some (Throw (Unrecognized (JStr ''APP_REZISE'')) example_stuck) \<and>
   dispatch (Suc (Suc 0)) failing_env (JStr ''APP_TITLE'') (JStr ''Later'') example_stuck =
     Some (Return (example_stuck
       \<lparr> store := initial_store
           \<lparr>app := (app initial_store)
              \<lparr>title := JStr (''Later'' @ title_separator @ ''BitMidi'')\<rparr>\<rparr>,
         trace := [RenderBegin, Deferred, Deferred] \<rparr>)) \<and>
   isUpdatePending example_stuck \<and>
   unserved False [RenderBegin, Deferred, Deferred] \<and>
   count_renders [RenderBegin, Deferred, Deferred] = 1"
  by (simp add: failing_env_def example_env_def example_stuck_def createStore_def
      initial_store_def update_Suc dispatch_Suc update_body_def run_render_def
      dispatch_body_def case_APP_TITLE_def str_of_def emit_def count_renders_def Let_def)

text \<open>
  C3. \<open>API_SNIPPET_ADD\<close> in a browser while \<open>store.userName\<close> is \<open>null\<close> or
  \<open>undefined\<close>: the state that \<open>update\<close> is called on has the serialized
  \<open>{type, data}\<close> in the slot, one more entry in \<open>errors\<close> and nothing but
  \<open>console.error\<close> in the trace; after \<open>update\<close> has returned,
  \<open>window.location.href\<close> is set to \<open>/auth/twitter\<close>. Whatever the render dispatches
  in between, \<open>api.snippet.add\<close> is not called. With a render that dispatches nothing the
  final state is the one written out.
\<close>

theorem snippet_add_without_user:
  assumes "eq_null (userName (store s))" and "window s = Some w"
  shows
    "(let msg = ''Last step! Log in to get credit for your contribution.'';
          saved = json_stringify env (JObj [(''type'', JStr ''API_SNIPPET_ADD''), (''data'', data)]);
          s1 = emit (ConsoleError (JStr (''Error: '' @ msg)))
                 (s\<lparr>store := (store s)
                       \<lparr>app := (app (store s))\<lparr>fetchCount := fetchCount (app (store s)) + 1\<rparr>,
                        errors := errors (store s) @ [\<lparr> message = JStr msg, code = JNull \<rparr>]\<rparr>,
                     window := Some (w\<lparr>pendingDispatch := Some saved\<rparr>)\<rparr>)
      in dispatch (Suc n) env (JStr ''API_SNIPPET_ADD'') data s =
           and_then (update n env s1)
             (\<lambda>s3. case window s3 of
                      None \<Rightarrow> Some (Throw ReferenceError s3)
                    | Some w3 \<Rightarrow> Some (Return (s3\<lparr>window := Some (w3\<lparr>href := ''/auth/twitter''\<rparr>)\<rparr>))) \<and>
         (\<forall>out. dispatch (Suc n) env (JStr ''API_SNIPPET_ADD'') data s = Some out \<longrightarrow>
            count_add (trace (state_of out)) = count_add (trace s) \<and>
            (is_Return out \<longrightarrow>
               map_option href (window (state_of out)) = Some ''/auth/twitter'')) \<and>
         (\<not> isRendering s \<and> \<not> isUpdatePending s \<and> render env (store s1) = [] \<longrightarrow>
            dispatch (Suc (Suc n)) env (JStr ''API_SNIPPET_ADD'') data s =
              Some (Return ((emit RenderEnd (emit RenderBegin s1))
                \<lparr>window := Some (w\<lparr>pendingDispatch := Some saved, href := ''/auth/twitter''\<rparr>)\<rparr>))))"
proof -
  define msg where "msg = ''Last step! Log in to get credit for your contribution.''"
  define saved where
    "saved = json_stringify env (JObj [(''type'', JStr ''API_SNIPPET_ADD''), (''data'', data)])"
  define s1 where
    "s1 = emit (ConsoleError (JStr (''Error: '' @ msg)))
            (s\<lparr>store := (store s)
                  \<lparr>app := (app (store s))\<lparr>fetchCount := fetchCount (app (store s)) + 1\<rparr>,
                   errors := errors (store s) @ [\<lparr> message = JStr msg, code = JNull \<rparr>]\<rparr>,
                window := Some (w\<lparr>pendingDispatch := Some saved\<rparr>)\<rparr>)"
  define redirect where
    "redirect = (\<lambda>s3. case window s3 of
                   None \<Rightarrow> Some (Throw ReferenceError s3)
                 | Some w3 \<Rightarrow> Some (Return (s3\<lparr>window := Some (w3\<lparr>href := ''/auth/twitter''\<rparr>)\<rparr>)))"
  have eq: "dispatch (Suc m) env (JStr ''API_SNIPPET_ADD'') data s =
              and_then (update m env s1) redirect" for m
    using assms
    apply (simp add: dispatch_Suc dispatch_body_def case_API_SNIPPET_ADD_def fetchStart_def
        addPendingDispatch_def addError_def new_Error_def emit_def Let_def
        s1_def saved_def msg_def redirect_def)
    apply (rule arg_cong2 [where f = and_then, OF _ refl])
    apply (rule arg_cong [where f = "update m env"])
    apply simp
    done
  have frame: "count_add (trace (state_of out)) = count_add (trace s)"
    if "dispatch (Suc n) env (JStr ''API_SNIPPET_ADD'') data s = Some out" for out
    using kept_closure [of "Suc n" env] that assms(1)
    by (auto simp add: kept_ok_def kept_def)
  have ret: "map_option href (window (state_of out)) = Some ''/auth/twitter''"
    if "dispatch (Suc n) env (JStr ''API_SNIPPET_ADD'') data s = Some out" "is_Return out" for out
    using that unfolding eq
    by (auto simp add: and_then_def redirect_def split: option.splits outcome.splits)
  have quiet: "dispatch (Suc (Suc n)) env (JStr ''API_SNIPPET_ADD'') data s =
                 Some (Return ((emit RenderEnd (emit RenderBegin s1))
                   \<lparr>window := Some (w\<lparr>pendingDispatch := Some saved, href := ''/auth/twitter''\<rparr>)\<rparr>))"
    if "\<not> isRendering s" "\<not> isUpdatePending s" "render env (store s1) = []"
  proof -
    have "update (Suc n) env s1 = Some (Return (emit RenderEnd (emit RenderBegin s1)))"
      using that by (intro update_quiet) (simp_all add: s1_def emit_def)
    then show ?thesis
      unfolding eq by (simp add: and_then_def redirect_def s1_def emit_def)
  qed
  show ?thesis
    unfolding Let_def
    using eq [of n] frame ret quiet
    unfolding s1_def saved_def msg_def redirect_def
    by blast
qed

theorem snippet_add_without_user_witness:
  "eq_null (userName (store (createStore (Some example_window)))) \<and>
   window (createStore (Some example_window)) = Some example_window \<and>
   dispatch (Suc 0) quiet_env (JStr ''API_SNIPPET_ADD'') (JStr ''hello'')
     (createStore (Some example_window)) = None \<and>
   dispatch (Suc (Suc 0)) quiet_env (JStr ''API_SNIPPET_ADD'') (JStr ''hello'')
     (createStore (Some example_window)) =
   Some (Return ((createStore (Some example_window))
     \<lparr> store := initial_store
         \<lparr> app := (app initial_store)\<lparr>fetchCount := 1\<rparr>,
           errors := [\<lparr> message = JStr ''Last step! Log in to get credit for your contribution.'',
                       code = JNull \<rparr>] \<rparr>,
       window := Some \<lparr> pendingDispatch = Some example_json, href = ''/auth/twitter'' \<rparr>,
       trace := [ConsoleError
                  (JStr ''Error: Last step! Log in to get credit for your contribution.''),
                RenderBegin, RenderEnd] \<rparr>))"
  using snippet_add_without_user [where s = "createStore (Some example_window)"
      and w = example_window and n = 0 and env = quiet_env and data = "JStr ''hello''"]
  by (simp add: Let_def createStore_def initial_store_def example_window_def quiet_env_def
      example_env_def example_action_def emit_def)

text \<open>
  C4. \<open>fetchDone\<close> takes one off the count and calls the observer that was handed to
  \<open>createStore\<close> before it returns, on every call. With the server's \<open>onFetchEnd\<close> as the
  observer, \<open>done\<close> is queued for the next tick exactly when the count has become 0;
  nothing is written to the response by \<open>fetchDone\<close>, nor by any dispatch, whatever its
  type.
\<close>

theorem fetchDone_defers_done:
  "fetchCount (app (store (fetchDone (server_env env) s))) = fetchCount (app (store s)) - 1 \<and>
   trace (fetchDone (server_env env) s) = trace s @ [OnFetchDone] \<and>
   nextTickQueue (fetchDone (server_env env) s) =
     nextTickQueue s @ (if fetchCount (app (store s)) = 1 then [Done] else []) \<and>
   (dispatch n (server_env env) type data s = Some out \<longrightarrow>
      filter is_response (trace (state_of out)) = filter is_response (trace s))"
  using kept_closure [of n "server_env env"]
  by (auto simp add: fetchDone_def server_env_def onFetchEnd_def emit_def Let_def kept_ok_def
      kept_def)

theorem fetchDone_defers_done_witness:
  "fetchCount (app (store (fetchDone (server_env quiet_env) (fetchStart (createStore None))))) = 0 \<and>
   trace (fetchDone (server_env quiet_env) (fetchStart (createStore None))) = [OnFetchDone] \<and>
   nextTickQueue (fetchDone (server_env quiet_env) (fetchStart (createStore None))) = [Done] \<and>
   dispatch (Suc (Suc 0)) (server_env quiet_env) (JStr ''API_DOC_DONE'')
     (JObj [(''err'', JNull), (''doc'', JStr ''about'')]) (fetchStart (createStore None)) =
   Some (Return ((createStore None)
     \<lparr> store := initial_store\<lparr>doc := JStr ''about''\<rparr>,
       nextTickQueue := [Done],
       trace := [OnFetchDone, RenderBegin, RenderEnd] \<rparr>)) \<and>
   filter is_response [OnFetchDone, RenderBegin, RenderEnd] = []"
  using fetchDone_defers_done [where env = quiet_env and s = "fetchStart (createStore None)"
      and n = "Suc (Suc 0)" and type = "JStr ''API_DOC_DONE''"
      and data = "JObj [(''err'', JNull), (''doc'', JStr ''about'')]"]
  by (simp add: fetchStart_def createStore_def initial_store_def
      dispatch_Suc update_Suc dispatch_body_def case_API_DOC_DONE_def fetchDone_def
      server_env_def onFetchEnd_def quiet_env_def example_env_def
      update_body_def run_render_def emit_def Let_def)

text \<open>
  With two fetches pending, \<open>fetchDone\<close> has called the observer when it returns, and
  the count is 1: the call is neither held back until the count is 0 nor put off to the
  next tick.
\<close>

theorem fetchDone_observer_counterexample:
  "OnFetchDone \<in> set (trace (fetchDone (server_env quiet_env)
     (fetchStart (fetchStart (createStore None))))) \<and>
   fetchCount (app (store (fetchDone (server_env quiet_env)
     (fetchStart (fetchStart (createStore None)))))) = 1 \<and>
   nextTickQueue (fetchDone (server_env quiet_env)
     (fetchStart (fetchStart (createStore None)))) = []"
  by (simp add: fetchDone_def fetchStart_def createStore_def initial_store_def server_env_def
      onFetchEnd_def emit_def Let_def)

text \<open>
  C5. With a slot that \<open>JSON.parse\<close> rejects, \<open>RUN_PENDING_DISPATCH\<close> swallows the
  SyntaxError and clears the slot, and then reads \<open>event.type\<close> of an \<open>event\<close> that is
  still \<open>undefined\<close>: the dispatch throws a TypeError. Nothing but the slot has changed.
\<close>

theorem run_pending_malformed_throws:
  "dispatch (Suc 0) example_env (JStr ''RUN_PENDING_DISPATCH'') JUndefined
     (createStore (Some (example_window\<lparr>pendingDispatch := Some ''{oops''\<rparr>))) =
   Some (Throw TypeError (createStore (Some example_window)))"
  by (simp add: dispatch_Suc dispatch_body_def case_RUN_PENDING_DISPATCH_def createStore_def
      example_env_def example_window_def example_json_def Let_def)

text \<open>
  C6. A \<open>_DONE\<close> dispatch whose payload has a truthy \<open>err\<close>: \<open>fetchDone()\<close> has run,
  one \<open>{message, code}\<close> entry is appended to \<open>errors\<close>, \<open>console.error\<close> is called, and
  \<open>update\<close> is called on that state; \<open>snippets\<close>, \<open>searches\<close>, \<open>topSnippetIds\<close>, \<open>doc\<close> and
  \<open>location\<close> are as they were. With a render that dispatches nothing the dispatch
  returns, and the final state is the one written out.
\<close>

theorem done_with_error:
  assumes "t \<in> set done_types" and "get_prop ''err'' data = Some err" and "truthy err"
  shows
    "\<exists>m c stk.
       get_prop ''message'' err = Some m \<and> get_prop ''code'' err = Some c \<and>
       get_prop ''stack'' err = Some stk \<and>
       (let entry = \<lparr> message = m, code = (if c = JUndefined then JNull else c) \<rparr>;
            s0 = fetchDone env s;
            s1 = emit (ConsoleError stk)
                   (s0\<lparr>store := (store s0)\<lparr>errors := errors (store s0) @ [entry]\<rparr>\<rparr>)
        in dispatch (Suc n) env (JStr t) data s = update n env s1 \<and>
           fetchCount (app (store s1)) = fetchCount (app (store s)) - 1 \<and>
           errors (store s1) = errors (store s) @ [entry] \<and>
           snippets (store s1) = snippets (store s) \<and>
           searches (store s1) = searches (store s) \<and>
           topSnippetIds (store s1) = topSnippetIds (store s) \<and>
           doc (store s1) = doc (store s) \<and>
           location (store s1) = location (store s) \<and>
           (\<not> isRendering s \<and> \<not> isUpdatePending s \<and> render env (store s1) = [] \<longrightarrow>
              dispatch (Suc (Suc n)) env (JStr t) data s =
                Some (Return (emit RenderEnd (emit RenderBegin s1)))))"
proof -
  from assms(3) obtain m c stk where
    e: "get_prop ''message'' err = Some m" "get_prop ''code'' err = Some c"
       "get_prop ''stack'' err = Some stk"
    using get_prop_truthy by blast
  obtain d1 d2 d3 d4 where
    d: "get_prop ''doc'' data = Some d1" "get_prop ''snippet'' data = Some d2"
       "get_prop ''snippets'' data = Some d3" "get_prop ''search'' data = Some d4"
    using get_prop_other [OF assms(2), of "''doc''"] get_prop_other [OF assms(2), of "''snippet''"]
      get_prop_other [OF assms(2), of "''snippets''"] get_prop_other [OF assms(2), of "''search''"]
    by blast
  define entry where "entry = \<lparr> message = m, code = (if c = JUndefined then JNull else c) \<rparr>"
  define s1 where
    "s1 = emit (ConsoleError stk)
            ((fetchDone env s)\<lparr>store := (store (fetchDone env s))
               \<lparr>errors := errors (store (fetchDone env s)) @ [entry]\<rparr>\<rparr>)"
  have add: "addError upd err (fetchDone env s) = upd s1" for upd
    using e by (simp add: addError_def s1_def entry_def)
  have 1: "case_API_DOC_DONE env upd data s = upd s1" for upd
    using assms(2,3) d add by (simp add: case_API_DOC_DONE_def Let_def)
  have 2: "case_API_SNIPPET_ADD_DONE env disp upd data s = upd s1" for disp upd
    using assms(2,3) d add by (simp add: case_API_SNIPPET_ADD_DONE_def Let_def)
  have 3: "case_API_SNIPPET_one_DONE env upd data s = upd s1" for upd
    using assms(2,3) d add by (simp add: case_API_SNIPPET_one_DONE_def Let_def)
  have 4: "case_API_SNIPPET_ALL_DONE env upd data s = upd s1" for upd
    using assms(2,3) d add by (simp add: case_API_SNIPPET_ALL_DONE_def Let_def)
  have 5: "case_API_SNIPPET_SEARCH_DONE env upd data s = upd s1" for upd
    using assms(2,3) d add by (simp add: case_API_SNIPPET_SEARCH_DONE_def Let_def)
  from assms(1) have t:
    "t = ''API_DOC_DONE'' \<or> t = ''API_SNIPPET_ADD_DONE'' \<or> t = ''API_SNIPPET_VOTE_DONE'' \<or>
     t = ''API_SNIPPET_GET_DONE'' \<or> t = ''API_SNIPPET_ALL_DONE'' \<or>
     t = ''API_SNIPPET_SEARCH_DONE''"
    by (simp add: done_types_def)
  have eq: "dispatch (Suc k) env (JStr t) data s = update k env s1" for k
    using t by (elim disjE) (simp_all add: dispatch_Suc dispatch_body_def 1 2 3 4 5)
  have st: "store (fetchDone env s) =
              (store s)\<lparr>app := (app (store s))\<lparr>fetchCount := fetchCount (app (store s)) - 1\<rparr>\<rparr>"
    and fl: "isRendering (fetchDone env s) = isRendering s"
            "isUpdatePending (fetchDone env s) = isUpdatePending s"
    by (simp_all add: fetchDone_def emit_def Let_def split: option.splits)
  have quiet: "dispatch (Suc (Suc n)) env (JStr t) data s =
                 Some (Return (emit RenderEnd (emit RenderBegin s1)))"
    if "\<not> isRendering s" "\<not> isUpdatePending s" "render env (store s1) = []"
    unfolding eq using that fl
    by (intro update_quiet) (simp_all add: s1_def emit_def)
  show ?thesis
    using e eq [of n] quiet st
    by (intro exI [of _ m] exI [of _ c] exI [of _ stk])
       (simp add: Let_def s1_def entry_def emit_def)
qed

theorem done_with_error_witness:
  "''API_SNIPPET_GET_DONE'' \<in> set done_types \<and>
   get_prop ''err'' example_failure = Some (new_Error ''Not Found'') \<and>
   truthy (new_Error ''Not Found'') \<and>
   dispatch (Suc (Suc 0)) quiet_env (JStr ''API_SNIPPET_GET_DONE'') example_failure
     (fetchStart (createStore None)) =
   Some (Return ((createStore None)
     \<lparr> store := initial_store\<lparr>errors := [\<lparr> message = JStr ''Not Found'', code = JNull \<rparr>]\<rparr>,
       trace := [ConsoleError (JStr ''Error: Not Found''), RenderBegin, RenderEnd] \<rparr>))"
  using done_with_error [where t = "''API_SNIPPET_GET_DONE''" and data = example_failure
      and err = "new_Error ''Not Found''" and env = quiet_env and n = 0
      and s = "fetchStart (createStore None)"]
  by (simp add: done_types_def example_failure_def new_Error_def Let_def fetchDone_def
      fetchStart_def createStore_def initial_store_def quiet_env_def example_env_def emit_def)

text \<open>
  C7. An action that \<open>JSON\<close> gives back as it was saved: \<open>addPendingDispatch\<close> fills the
  slot; \<open>RUN_PENDING_DISPATCH\<close> then dispatches the same type and data on a state whose
  slot is already empty, and calls \<open>update\<close>; on an empty slot \<open>RUN_PENDING_DISPATCH\<close>
  returns the state as it was. With a user logged in nothing that the replay does fills
  the slot again, so a second \<open>RUN_PENDING_DISPATCH\<close> changes nothing.
\<close>

theorem pending_dispatch_roundtrip:
  assumes "window s = Some w"
    and "json_parse env (json_stringify env (JObj [(''type'', type), (''data'', data)])) = Some ev"
    and "get_prop ''type'' ev = Some type" and "get_prop ''data'' ev = Some data"
  shows
    "(let saved = s\<lparr>window := Some (w\<lparr>pendingDispatch :=
                      Some (json_stringify env (JObj [(''type'', type), (''data'', data)]))\<rparr>)\<rparr>;
          cleared = s\<lparr>window := Some (w\<lparr>pendingDispatch := None\<rparr>)\<rparr>
      in addPendingDispatch env type data s = Some (Return saved) \<and>
         dispatch (Suc n) env (JStr ''RUN_PENDING_DISPATCH'') d saved =
           and_then (dispatch n env type data cleared) (update n env) \<and>
         slot cleared = None \<and>
         dispatch (Suc n) env (JStr ''RUN_PENDING_DISPATCH'') d cleared = Some (Return cleared) \<and>
         (\<forall>out. \<not> eq_null (userName (store s)) \<and>
                dispatch (Suc n) env (JStr ''RUN_PENDING_DISPATCH'') d saved = Some out \<longrightarrow>
            slot (state_of out) = None \<and>
            dispatch (Suc n) env (JStr ''RUN_PENDING_DISPATCH'') d (state_of out) =
              Some (Return (state_of out))))"
proof -
  define saved where
    "saved = s\<lparr>window := Some (w\<lparr>pendingDispatch :=
               Some (json_stringify env (JObj [(''type'', type), (''data'', data)]))\<rparr>)\<rparr>"
  define cleared where "cleared = s\<lparr>window := Some (w\<lparr>pendingDispatch := None\<rparr>)\<rparr>"
  have save: "addPendingDispatch env type data s = Some (Return saved)"
    using assms(1) by (simp add: addPendingDispatch_def saved_def)
  have run: "dispatch (Suc n) env (JStr ''RUN_PENDING_DISPATCH'') d saved =
               and_then (dispatch n env type data cleared) (update n env)"
    using assms(2,3,4)
    by (simp add: dispatch_Suc dispatch_body_def case_RUN_PENDING_DISPATCH_def saved_def
        cleared_def Let_def)
  have empty: "dispatch (Suc n) env (JStr ''RUN_PENDING_DISPATCH'') d x = Some (Return x)"
    if "window x \<noteq> None" "slot x = None" for x
    using that
    by (auto simp add: dispatch_Suc dispatch_body_def case_RUN_PENDING_DISPATCH_def slot_def
        split: option.splits)
  have c: "slot cleared = None" "window cleared \<noteq> None"
    by (simp_all add: cleared_def slot_def)
  have after: "slot (state_of out) = None \<and> window (state_of out) \<noteq> None"
    if "\<not> eq_null (userName (store s))"
      "dispatch (Suc n) env (JStr ''RUN_PENDING_DISPATCH'') d saved = Some out" for out
  proof -
    have "kept_ok cleared (and_then (dispatch n env type data cleared) (update n env))"
      using kept_closure [of n env] by (intro kept_ok_and_then) simp_all
    with that(2) have "kept cleared (state_of out)"
      unfolding run by (simp add: kept_ok_def)
    with that(1) c show ?thesis
      by (simp add: kept_def cleared_def)
  qed
  show ?thesis
    unfolding Let_def
    using save run c(1) empty [OF c(2) c(1)] after empty
    unfolding saved_def cleared_def
    by blast
qed

theorem pending_dispatch_roundtrip_witness:
  "window example_logged_in = Some example_window \<and>
   json_parse quiet_env (json_stringify quiet_env
     (JObj [(''type'', JStr ''API_SNIPPET_ADD''), (''data'', JStr ''hello'')])) =
     Some example_action \<and>
   get_prop ''type'' example_action = Some (JStr ''API_SNIPPET_ADD'') \<and>
   get_prop ''data'' example_action = Some (JStr ''hello'') \<and>
   \<not> eq_null (userName (store example_logged_in)) \<and>
   addPendingDispatch quiet_env (JStr ''API_SNIPPET_ADD'') (JStr ''hello'') example_logged_in =
     Some (Return (example_logged_in
       \<lparr>window := Some (example_window\<lparr>pendingDispatch := Some example_json\<rparr>)\<rparr>)) \<and>
   dispatch (Suc (Suc (Suc 0))) quiet_env (JStr ''RUN_PENDING_DISPATCH'') JUndefined
     (example_logged_in\<lparr>window := Some (example_window\<lparr>pendingDispatch := Some example_json\<rparr>)\<rparr>) =
   Some (Return (example_logged_in
     \<lparr> store := initial_store
         \<lparr>app := (app initial_store)\<lparr>fetchCount := 1\<rparr>, userName := JStr ''ada''\<rparr>,
       trace := [ApiCall ''snippet.add'' (JStr ''hello''), RenderBegin, RenderEnd,
                 RenderBegin, RenderEnd] \<rparr>))"
  using pending_dispatch_roundtrip [where s = example_logged_in and w = example_window
      and env = quiet_env and type = "JStr ''API_SNIPPET_ADD''" and data = "JStr ''hello''"
      and ev = example_action and n = "Suc (Suc 0)" and d = JUndefined]
  by (simp add: Let_def example_logged_in_def example_window_def example_action_def
      quiet_env_def example_env_def createStore_def initial_store_def
      dispatch_Suc update_Suc dispatch_body_def case_API_SNIPPET_ADD_def case_API_start_def
      fetchStart_def update_body_def run_render_def emit_def)

text \<open>
  C8. A type that \<open>dispatch\<close> has no \<open>case\<close> for, a string or not, reaches the \<open>default\<close>
  branch: the call throws, and the state it throws in is the state it was given.
\<close>

theorem dispatch_unrecognized:
  "type \<notin> JStr ` set dispatch_types \<Longrightarrow>
   dispatch (Suc n) env type data s = Some (Throw (Unrecognized type) s)"
  by (auto simp add: dispatch_Suc dispatch_body_def dispatch_types_def)

theorem dispatch_unrecognized_witness:
  "JStr ''APP_REZISE'' \<notin> JStr ` set dispatch_types \<and>
   dispatch (Suc 0) example_env (JStr ''APP_REZISE'') JNull (createStore None) =
     Some (Throw (Unrecognized (JStr ''APP_REZISE'')) (createStore None))"
  using dispatch_unrecognized [of "JStr ''APP_REZISE''" 0 example_env JNull "createStore None"]
  by (simp add: dispatch_types_def)

text \<open>
  C9. \<open>done\<close> answers 404 when \<open>store.location.name\<close> is \<open>'not-found'\<close> and 200
  otherwise. The handler calls it right after the first dispatch when \<open>fetchCount\<close> is 0
  then, and the next tick calls it when \<open>onFetchEnd\<close> has queued it.
\<close>

theorem response_status:
  assumes "get_prop ''name'' (location (store s)) = Some nm"
  shows "done_fn s =
           Some (Return (emit (ResRender (title (app (store s))))
             (emit (ResStatus (if nm = JStr ''not-found'' then 404 else 200)) s))) \<and>
         (dispatch n (server_env env) (JStr ''LOCATION_REPLACE'') (JStr url) (createStore None) =
            Some (Return s) \<and> fetchCount (app (store s)) = 0 \<longrightarrow>
          router_get n env url =
            Some (Return (emit (ResRender (title (app (store s))))
              (emit (ResStatus (if nm = JStr ''not-found'' then 404 else 200)) s)))) \<and>
         run_tick (s\<lparr>nextTickQueue := Done # q\<rparr>) =
           Some (Return (emit (ResRender (title (app (store s))))
             (emit (ResStatus (if nm = JStr ''not-found'' then 404 else 200))
                (s\<lparr>nextTickQueue := q\<rparr>))))"
  using assms
  by (simp add: done_fn_def router_get_def emit_def Let_def)

lemma example_not_found_dispatch:
  "dispatch (Suc (Suc (Suc 0))) (server_env quiet_env) (JStr ''LOCATION_REPLACE'')
     (JStr ''/nope'') (createStore None) = Some (Return example_not_found)"
  by (simp add: dispatch_Suc update_Suc dispatch_body_def case_LOCATION_REPLACE_def
      case_LOCATION_CHANGED_def loc_notify_def update_body_def run_render_def emit_def
      server_env_def quiet_env_def example_env_def example_not_found_def
      createStore_def initial_store_def example_route_def Let_def)

theorem response_status_witness:
  "get_prop ''name'' (location (store example_not_found)) = Some (JStr ''not-found'') \<and>
   dispatch (Suc (Suc (Suc 0))) (server_env quiet_env) (JStr ''LOCATION_REPLACE'')
     (JStr ''/nope'') (createStore None) = Some (Return example_not_found) \<and>
   fetchCount (app (store example_not_found)) = 0 \<and>
   router_get (Suc (Suc (Suc 0))) quiet_env ''/nope'' =
     Some (Return (example_not_found
       \<lparr>trace := [LocReplace (JStr ''/nope''), RenderBegin, RenderEnd, ResStatus 404,
                  ResRender JNull]\<rparr>))"
proof -
  have nm: "get_prop ''name'' (location (store example_not_found)) = Some (JStr ''not-found'')"
    by (simp add: example_not_found_def example_route_def)
  have cnt: "fetchCount (app (store example_not_found)) = 0"
    by (simp add: example_not_found_def initial_store_def)
  show ?thesis
    using response_status [OF nm, of "Suc (Suc (Suc 0))" quiet_env "''/nope''"]
      example_not_found_dispatch nm cnt
    by (simp add: emit_def example_not_found_def initial_store_def)
qed

text \<open>
  C10. \<open>LOCATION_PUSH\<close> and \<open>LOCATION_REPLACE\<close> with a URL that is strictly equal to
  \<open>store.location.url\<close> return the state as it was: no call of the \<open>Location\<close> object,
  no call of \<open>update\<close>, nothing in the trace. With any other URL the \<open>Location\<close> object is
  called, and what follows is what it reports back.
\<close>

theorem location_same_url_noop:
  assumes "get_prop ''url'' (location (store s)) = Some u"
  shows "(strict_eq data u \<longrightarrow>
            dispatch (Suc n) env (JStr ''LOCATION_PUSH'') data s = Some (Return s) \<and>
            dispatch (Suc n) env (JStr ''LOCATION_REPLACE'') data s = Some (Return s)) \<and>
         (\<not> strict_eq data u \<longrightarrow>
            dispatch (Suc n) env (JStr ''LOCATION_PUSH'') data s =
              loc_notify (dispatch n env) (loc_push env data) (emit (LocPush data) s) \<and>
            dispatch (Suc n) env (JStr ''LOCATION_REPLACE'') data s =
              loc_notify (dispatch n env) (loc_replace env data) (emit (LocReplace data) s))"
  using assms
  by (simp add: dispatch_Suc dispatch_body_def case_LOCATION_PUSH_def case_LOCATION_REPLACE_def)

lemma example_home_url: "get_prop ''url'' (location (store example_home)) = Some (JStr ''/'')"
  by (simp add: example_home_def example_route_def)

theorem location_same_url_noop_witness:
  "get_prop ''url'' (location (store example_home)) = Some (JStr ''/'') \<and>
   strict_eq (JStr ''/'') (JStr ''/'') \<and>
   dispatch (Suc 0) example_env (JStr ''LOCATION_PUSH'') (JStr ''/'') example_home =
     Some (Return example_home) \<and>
   dispatch (Suc 0) example_env (JStr ''LOCATION_REPLACE'') (JStr ''/'') example_home =
     Some (Return example_home) \<and>
   \<not> strict_eq (JStr ''/nope'') (JStr ''/'') \<and>
   dispatch (Suc 0) example_env (JStr ''LOCATION_PUSH'') (JStr ''/nope'') example_home =
     loc_notify (dispatch 0 example_env) (loc_push example_env (JStr ''/nope''))
       (emit (LocPush (JStr ''/nope'')) example_home)"
  using location_same_url_noop [OF example_home_url, of "JStr ''/''" 0 example_env]
    location_same_url_noop [OF example_home_url, of "JStr ''/nope''" 0 example_env]
  by (simp add: example_home_url)

end
